theory Spec2Isabelle
  imports Complex_Main "HOL-Library.Multiset"
begin

section \<open>Clipboard history: configuration, record store and clipboard poller\<close>

text \<open>
  A shallow embedding of \<^verbatim>\<open>src/config.py\<close>, \<^verbatim>\<open>src/storage.py\<close> and the poll step of
  \<^verbatim>\<open>src/clipboard_monitor.py\<close>. Mutation of \<^verbatim>\<open>self\<close> and of the disk is explicit state
  passing; clock reads are parameters. Record ids are Python floats used only in
  subtraction and comparison; they are modelled as reals. JSON values that would raise a
  \<^verbatim>\<open>TypeError\<close> in the source (a string where a number is expected) are excluded by the
  types.
\<close>

subsection \<open>Configuration (\<^verbatim>\<open>config.py\<close>)\<close>

text \<open>The JSON values a setting can hold: \<^verbatim>\<open>null\<close>, an integer, a boolean.\<close>

datatype jvalue = JNull | JInt int | JBool bool

text \<open>\<^verbatim>\<open>Config.config\<close> is a Python dict from setting names to values.\<close>

type_synonym config = "string \<rightharpoonup> jvalue"

definition load_default_config :: config where
  "load_default_config =
     [''max_records'' \<mapsto> JNull, ''max_age_minutes'' \<mapsto> JNull,
      ''clear_data_on_exit'' \<mapsto> JBool True]"

text \<open>
  The configuration file as \<^verbatim>\<open>_load_config\<close> sees it: absent, present but not parseable
  (the exception is caught and printed), or a JSON object that \<^verbatim>\<open>dict.update\<close> merges
  over the defaults.
\<close>

datatype config_file = NoConfigFile | BadConfigFile | ConfigJson config

definition load_config :: "config_file \<Rightarrow> config \<Rightarrow> config" where
  "load_config f c =
     (case f of
        NoConfigFile \<Rightarrow> c
      | BadConfigFile \<Rightarrow> c
      | ConfigJson loaded \<Rightarrow> c ++ loaded)"

text \<open>\<^verbatim>\<open>Config.__init__\<close>: the defaults, then the file.\<close>

definition Config_init :: "config_file \<Rightarrow> config" where
  "Config_init f = load_config f load_default_config"

text \<open>\<^verbatim>\<open>dict.get(key)\<close> gives \<^verbatim>\<open>None\<close> for a missing key; \<^verbatim>\<open>dict.get(key, True)\<close> gives \<^verbatim>\<open>True\<close>.\<close>

definition get_max_records :: "config \<Rightarrow> jvalue" where
  "get_max_records c = (case c ''max_records'' of None \<Rightarrow> JNull | Some v \<Rightarrow> v)"

definition get_max_age_minutes :: "config \<Rightarrow> jvalue" where
  "get_max_age_minutes c = (case c ''max_age_minutes'' of None \<Rightarrow> JNull | Some v \<Rightarrow> v)"

definition get_clear_data_on_exit :: "config \<Rightarrow> jvalue" where
  "get_clear_data_on_exit c =
     (case c ''clear_data_on_exit'' of None \<Rightarrow> JBool True | Some v \<Rightarrow> v)"

definition set_max_records :: "jvalue \<Rightarrow> config \<Rightarrow> config" where
  "set_max_records v c = c(''max_records'' \<mapsto> v)"

definition set_max_age_minutes :: "jvalue \<Rightarrow> config \<Rightarrow> config" where
  "set_max_age_minutes v c = c(''max_age_minutes'' \<mapsto> v)"

text \<open>
  How the store reads a limit: \<^verbatim>\<open>None\<close> is "no limit", anything else is used as a number
  (a Python \<^verbatim>\<open>bool\<close> is the integer 0 or 1).
\<close>

fun limit_of :: "jvalue \<Rightarrow> int option" where
  "limit_of JNull = None"
| "limit_of (JInt n) = Some n"
| "limit_of (JBool b) = Some (if b then 1 else 0)"

text \<open>Python truthiness of a setting, as \<^verbatim>\<open>quit_application\<close> tests it.\<close>

fun truthy :: "jvalue \<Rightarrow> bool" where
  "truthy JNull = False"
| "truthy (JInt n) = (n \<noteq> 0)"
| "truthy (JBool b) = b"

subsection \<open>Records and the disk\<close>

text \<open>
  A history record is a Python dict with five keys. The field \<open>rid\<close> is the key
  \<^verbatim>\<open>'id'\<close> and \<open>rtype\<close> the key \<^verbatim>\<open>'type'\<close> (one of \<^verbatim>\<open>'text'\<close>, \<^verbatim>\<open>'file'\<close>,
  \<^verbatim>\<open>'image'\<close>); for an image record \<open>content\<close> is the path of the cached image.
\<close>

record crecord =
  rid :: real
  content :: string
  rtype :: string
  timestamp :: string
  favorited :: bool

type_synonym path = string

text \<open>Paths are written relative to the application directory.\<close>

definition data_file :: path where
  "data_file = ''clipboard_data.json''"

definition temp_dir :: path where
  "temp_dir = ''temp_images''"

definition join :: "path \<Rightarrow> string \<Rightarrow> path" where
  "join d n = d @ ''/'' @ n"

text \<open>
  The disk: the regular files and the directories that exist, and what the data file
  holds (\<open>Some rs\<close> when it parses as a JSON list of records, \<open>None\<close> when
  \<^verbatim>\<open>json.load\<close> would raise; read only while the data file exists). The disk is
  reliable: removing an existing regular file succeeds, and so does the platform call
  behind \<^verbatim>\<open>delete_file_permanently\<close>.
\<close>

record filesystem =
  files :: "path list"
  dirs :: "path list"
  data_json :: "crecord list option"

definition isfile :: "filesystem \<Rightarrow> path \<Rightarrow> bool" where
  "isfile fs p = (p \<in> set (files fs))"

definition path_exists :: "filesystem \<Rightarrow> path \<Rightarrow> bool" where
  "path_exists fs p = (p \<in> set (files fs) \<or> p \<in> set (dirs fs))"

text \<open>\<^verbatim>\<open>os.unlink\<close>: \<open>None\<close> is the \<^verbatim>\<open>OSError\<close> for a path that is not a regular file.\<close>

definition unlink :: "filesystem \<Rightarrow> path \<Rightarrow> filesystem option" where
  "unlink fs p =
     (if isfile fs p then Some (fs\<lparr>files := removeAll p (files fs)\<rparr>) else None)"

text \<open>The exception is caught and \<^verbatim>\<open>False\<close> returned, the disk unchanged.\<close>

definition delete_file_permanently :: "path \<Rightarrow> filesystem \<Rightarrow> bool \<times> filesystem" where
  "delete_file_permanently file_path fs =
     (case unlink fs file_path of Some fs' \<Rightarrow> (True, fs') | None \<Rightarrow> (False, fs))"

text \<open>
  A path lies under a directory when it starts with the directory and a separator; it is
  a direct child when nothing but a name follows.
\<close>

definition under :: "path \<Rightarrow> path \<Rightarrow> bool" where
  "under d p = (take (length d + 1) p = d @ ''/'')"

definition child_name :: "path \<Rightarrow> path \<Rightarrow> string option" where
  "child_name d p =
     (let n = drop (length d + 1) p
      in if under d p \<and> n \<noteq> [] \<and> CHR ''/'' \<notin> set n then Some n else None)"

text \<open>\<^verbatim>\<open>os.listdir\<close>: the names in a directory; \<open>None\<close> when it is not a directory.\<close>

definition listdir :: "filesystem \<Rightarrow> path \<Rightarrow> string list option" where
  "listdir fs d =
     (if d \<in> set (dirs fs)
      then Some (List.map_filter (child_name d) (files fs @ dirs fs))
      else None)"

text \<open>\<^verbatim>\<open>shutil.rmtree\<close>: the directory and everything under it.\<close>

definition rmtree :: "filesystem \<Rightarrow> path \<Rightarrow> filesystem option" where
  "rmtree fs d =
     (if d \<in> set (dirs fs)
      then Some (fs\<lparr>files := filter (\<lambda>p. \<not> under d p) (files fs),
                     dirs := filter (\<lambda>p. p \<noteq> d \<and> \<not> under d p) (dirs fs)\<rparr>)
      else None)"

text \<open>
  \<^verbatim>\<open>open(data_file, 'w')\<close> and \<^verbatim>\<open>json.dump\<close>; \<open>None\<close> when the path is a directory.
  \<^verbatim>\<open>open(data_file, 'r')\<close> and \<^verbatim>\<open>json.load\<close>; \<open>None\<close> is any exception.
\<close>

definition write_data_file :: "crecord list \<Rightarrow> filesystem \<Rightarrow> filesystem option" where
  "write_data_file rs fs =
     (if data_file \<in> set (dirs fs) then None
      else Some (fs\<lparr>files := (if isfile fs data_file then files fs
                                else data_file # files fs),
                     data_json := Some rs\<rparr>))"

definition read_data_file :: "filesystem \<Rightarrow> crecord list option" where
  "read_data_file fs = (if isfile fs data_file then data_json fs else None)"

subsection \<open>The record store (\<^verbatim>\<open>storage.py\<close>)\<close>

record storage =
  config :: "config option"
  max_records :: "int option"
  records :: "crecord list"

text \<open>Python slices \<^verbatim>\<open>xs[:n]\<close> and \<^verbatim>\<open>xs[n:]\<close>; a negative \<open>n\<close> counts from the end.\<close>

definition slice_to :: "int \<Rightarrow> 'a list \<Rightarrow> 'a list" where
  "slice_to n xs =
     (if 0 \<le> n then take (nat n) xs else take (nat (int (length xs) + n)) xs)"

definition slice_from :: "int \<Rightarrow> 'a list \<Rightarrow> 'a list" where
  "slice_from n xs =
     (if 0 \<le> n then drop (nat n) xs else drop (nat (int (length xs) + n)) xs)"

text \<open>
  The block that every removal path of the store repeats: for an image record, delete
  the file at its content path if the path exists; failures are printed and ignored.
\<close>

definition delete_image_file :: "crecord \<Rightarrow> filesystem \<Rightarrow> filesystem" where
  "delete_image_file r fs =
     (if rtype r = ''image''
      then (if path_exists fs (content r)
            then snd (delete_file_permanently (content r) fs) else fs)
      else fs)"

definition delete_image_files :: "crecord list \<Rightarrow> filesystem \<Rightarrow> filesystem" where
  "delete_image_files rs fs = fold delete_image_file rs fs"

text \<open>\<^verbatim>\<open>_filter_by_age\<close>; \<open>current_time\<close> is the value of \<^verbatim>\<open>time.time()\<close>.\<close>

definition filter_by_age :: "real \<Rightarrow> storage \<Rightarrow> filesystem \<Rightarrow> storage \<times> filesystem" where
  "filter_by_age current_time s fs =
     (case config s of
        None \<Rightarrow> (s, fs)
      | Some c \<Rightarrow>
          (case limit_of (get_max_age_minutes c) of
             None \<Rightarrow> (s, fs)
           | Some max_age_minutes \<Rightarrow>
               let max_age_seconds = real_of_int (max_age_minutes * 60);
                   filtered_records =
                     filter (\<lambda>r. current_time - rid r \<le> max_age_seconds) (records s);
                   records_to_delete =
                     filter (\<lambda>r. \<not> current_time - rid r \<le> max_age_seconds) (records s)
               in (s\<lparr>records := filtered_records\<rparr>,
                   delete_image_files records_to_delete fs)))"

text \<open>\<^verbatim>\<open>_save_data\<close>: enforce the count limit, deleting evicted images, then write.\<close>

definition save_data :: "storage \<Rightarrow> filesystem \<Rightarrow> storage \<times> filesystem" where
  "save_data s fs =
     (let (s1, fs1) =
            (case max_records s of
               None \<Rightarrow> (s, fs)
             | Some n \<Rightarrow>
                 if int (length (records s)) > n
                 then (s\<lparr>records := slice_to n (records s)\<rparr>,
                       delete_image_files (slice_from n (records s)) fs)
                 else (s, fs))
      in (s1, case write_data_file (records s1) fs1 of
                Some fs2 \<Rightarrow> fs2
              | None \<Rightarrow> fs1))"

text \<open>The duplicate scan of \<^verbatim>\<open>add_record\<close>: the index of the first record with the
  same content and type.\<close>

fun find_dup :: "crecord \<Rightarrow> crecord list \<Rightarrow> nat option" where
  "find_dup r [] = None"
| "find_dup r (e # es) =
     (if content e = content r \<and> rtype e = rtype r then Some 0
      else map_option Suc (find_dup r es))"

text \<open>
  \<^verbatim>\<open>add_record\<close>. On a duplicate the existing dict is updated in place (so the list holds
  the updated record at its old position), \<^verbatim>\<open>list.remove\<close> takes out the first element
  equal to it, and it is inserted at the front. Otherwise the new record goes to the
  front, the age filter runs, the list is cut to the count limit, and the list is saved.
\<close>

definition add_record :: "real \<Rightarrow> crecord \<Rightarrow> storage \<Rightarrow> filesystem \<Rightarrow> storage \<times> filesystem" where
  "add_record now r s fs =
     (case find_dup r (records s) of
        Some i \<Rightarrow>
          let existing_record = (records s ! i)\<lparr>rid := rid r, timestamp := timestamp r\<rparr>;
              updated = (records s)[i := existing_record]
          in save_data (s\<lparr>records := existing_record # remove1 existing_record updated\<rparr>) fs
      | None \<Rightarrow>
          let s1 = s\<lparr>records := r # records s\<rparr>;
              (s2, fs2) = filter_by_age now s1 fs;
              s3 = (case max_records s2 of
                      None \<Rightarrow> s2
                    | Some n \<Rightarrow> s2\<lparr>records := slice_to n (records s2)\<rparr>)
          in save_data s3 fs2)"

text \<open>\<^verbatim>\<open>update_config\<close>.\<close>

definition update_config :: "real \<Rightarrow> config \<Rightarrow> storage \<Rightarrow> filesystem \<Rightarrow> storage \<times> filesystem" where
  "update_config now c s fs =
     (let s0 = s\<lparr>config := Some c, max_records := limit_of (get_max_records c)\<rparr>;
          old_count = length (records s0);
          (s1, fs1) = filter_by_age now s0 fs;
          (s2, fs2) =
            (case max_records s1 of
               None \<Rightarrow> (s1, fs1)
             | Some n \<Rightarrow>
                 if int (length (records s1)) > n
                 then (s1\<lparr>records := slice_to n (records s1)\<rparr>,
                       delete_image_files (slice_from n (records s1)) fs1)
                 else (s1, fs1))
      in if length (records s2) < old_count then save_data s2 fs2 else (s2, fs2))"

text \<open>\<^verbatim>\<open>delete_record\<close>: the first record with the id decides whether a file is deleted;
  every record with the id leaves the list.\<close>

definition delete_record :: "real \<Rightarrow> storage \<Rightarrow> filesystem \<Rightarrow> storage \<times> filesystem" where
  "delete_record record_id s fs =
     (let record_to_delete = List.find (\<lambda>r. rid r = record_id) (records s);
          fs1 = (case record_to_delete of
                   None \<Rightarrow> fs
                 | Some r \<Rightarrow> delete_image_file r fs)
      in save_data (s\<lparr>records := filter (\<lambda>r. rid r \<noteq> record_id) (records s)\<rparr>) fs1)"

text \<open>\<^verbatim>\<open>delete_multiple\<close>.\<close>

definition delete_multiple :: "real list \<Rightarrow> storage \<Rightarrow> filesystem \<Rightarrow> storage \<times> filesystem" where
  "delete_multiple record_ids s fs =
     (let records_to_delete = filter (\<lambda>r. rid r \<in> set record_ids) (records s);
          fs1 = delete_image_files records_to_delete fs
      in save_data (s\<lparr>records := filter (\<lambda>r. rid r \<notin> set record_ids) (records s)\<rparr>) fs1)"

text \<open>\<^verbatim>\<open>clear_all\<close>.\<close>

definition clear_all :: "storage \<Rightarrow> filesystem \<Rightarrow> storage \<times> filesystem" where
  "clear_all s fs =
     (let fs1 = delete_image_files (records s) fs;
          (s2, fs2) = save_data (s\<lparr>records := []\<rparr>) fs1;
          fs3 = (if path_exists fs2 data_file
                 then snd (delete_file_permanently data_file fs2) else fs2);
          fs4 = (if path_exists fs3 temp_dir
                 then (case rmtree fs3 temp_dir of Some fs' \<Rightarrow> fs' | None \<Rightarrow> fs3)
                 else fs3)
      in (s2, fs4))"

text \<open>\<^verbatim>\<open>list.sort(key=lambda x: x['id'], reverse=True)\<close>: descending and stable.\<close>

definition sort_by_id_desc :: "crecord list \<Rightarrow> crecord list" where
  "sort_by_id_desc rs = sort_key (\<lambda>x. - rid x) rs"

text \<open>\<^verbatim>\<open>_cleanup_orphaned_images\<close>.\<close>

definition image_paths :: "crecord list \<Rightarrow> path set" where
  "image_paths rs = set (map content (filter (\<lambda>r. rtype r = ''image'') rs))"

definition cleanup_step :: "path set \<Rightarrow> string \<Rightarrow> filesystem \<Rightarrow> filesystem" where
  "cleanup_step image_paths_in_records filename fs =
     (let file_path = join temp_dir filename
      in if isfile fs file_path \<and> file_path \<notin> image_paths_in_records
         then snd (delete_file_permanently file_path fs) else fs)"

definition cleanup_orphaned_images :: "storage \<Rightarrow> filesystem \<Rightarrow> filesystem" where
  "cleanup_orphaned_images s fs =
     (if \<not> path_exists fs temp_dir then fs
      else
        let image_paths_in_records = image_paths (records s)
        in (case listdir fs temp_dir of
              None \<Rightarrow> fs
            | Some names \<Rightarrow> fold (cleanup_step image_paths_in_records) names fs))"

text \<open>
  \<^verbatim>\<open>_load_data\<close>. Nothing happens without a data file; any exception while reading
  leaves an empty list.
\<close>

definition load_data :: "real \<Rightarrow> storage \<Rightarrow> filesystem \<Rightarrow> storage \<times> filesystem" where
  "load_data now s fs =
     (if path_exists fs data_file
      then (case read_data_file fs of
              None \<Rightarrow> (s\<lparr>records := []\<rparr>, fs)
            | Some loaded \<Rightarrow>
                let s1 = s\<lparr>records := sort_by_id_desc loaded\<rparr>;
                    (s2, fs2) = filter_by_age now s1 fs;
                    s3 = (case max_records s2 of
                            None \<Rightarrow> s2
                          | Some n \<Rightarrow> s2\<lparr>records := slice_to n (records s2)\<rparr>)
                in (s3, cleanup_orphaned_images s3 fs2))
      else (s, fs))"

text \<open>\<^verbatim>\<open>Storage.__init__(config, max_records)\<close>.\<close>

definition Storage_init ::
  "config option \<Rightarrow> int option \<Rightarrow> real \<Rightarrow> filesystem \<Rightarrow> storage \<times> filesystem" where
  "Storage_init cfg max_records_arg now fs =
     load_data now
       \<lparr>config = cfg,
        max_records = (case cfg of
                         None \<Rightarrow> max_records_arg
                       | Some c \<Rightarrow> limit_of (get_max_records c)),
        records = []\<rparr> fs"

text \<open>
  A session of the store: the constructor, then any sequence of the mutating operations.
  \<open>ids_increase\<close> says that each added record carries an id at least as large as every
  id in the list at that moment (ids are clock readings).
\<close>

datatype operation =
    Add real crecord
  | Delete real
  | DeleteMultiple "real list"
  | UpdateConfig real config
  | ClearAll

fun apply_op :: "operation \<Rightarrow> storage \<times> filesystem \<Rightarrow> storage \<times> filesystem" where
  "apply_op (Add now r) (s, fs) = add_record now r s fs"
| "apply_op (Delete record_id) (s, fs) = delete_record record_id s fs"
| "apply_op (DeleteMultiple record_ids) (s, fs) = delete_multiple record_ids s fs"
| "apply_op (UpdateConfig now c) (s, fs) = update_config now c s fs"
| "apply_op ClearAll (s, fs) = clear_all s fs"

fun run :: "operation list \<Rightarrow> storage \<times> filesystem \<Rightarrow> storage \<times> filesystem" where
  "run [] st = st"
| "run (x # xs) st = run xs (apply_op x st)"

fun adds_max_id :: "operation \<Rightarrow> storage \<Rightarrow> bool" where
  "adds_max_id (Add now r) s = list_all (\<lambda>e. rid e \<le> rid r) (records s)"
| "adds_max_id _ s = True"

fun ids_increase :: "operation list \<Rightarrow> storage \<times> filesystem \<Rightarrow> bool" where
  "ids_increase [] st = True"
| "ids_increase (x # xs) st = (adds_max_id x (fst st) \<and> ids_increase xs (apply_op x st))"

text \<open>Every adjacent pair of records has the earlier id at least the later one.\<close>

definition descending :: "crecord list \<Rightarrow> bool" where
  "descending rs = (\<forall>i. Suc i < length rs \<longrightarrow> rid (rs ! Suc i) \<le> rid (rs ! i))"

text \<open>The list respects the count limit (trivially so when there is none).\<close>

definition count_ok :: "storage \<Rightarrow> bool" where
  "count_ok s =
     (case max_records s of None \<Rightarrow> True | Some n \<Rightarrow> int (length (records s)) \<le> n)"

text \<open>
  A limit is a count when it is absent or not negative. A session keeps its limits counts
  when the constructor's limit and every limit set by \<^verbatim>\<open>update_config\<close> is one. The store
  keeps its limit when the limit is a count and the list respects it.
\<close>

definition is_count :: "int option \<Rightarrow> bool" where
  "is_count bound = (case bound of None \<Rightarrow> True | Some n \<Rightarrow> 0 \<le> n)"

fun sets_count :: "operation \<Rightarrow> bool" where
  "sets_count (UpdateConfig now c) = is_count (limit_of (get_max_records c))"
| "sets_count _ = True"

definition limits_are_counts :: "config option \<Rightarrow> int option \<Rightarrow> operation list \<Rightarrow> bool" where
  "limits_are_counts cfg max_records_arg ops =
     (is_count (case cfg of None \<Rightarrow> max_records_arg | Some c \<Rightarrow> limit_of (get_max_records c))
      \<and> list_all sets_count ops)"

definition limit_kept :: "storage \<Rightarrow> bool" where
  "limit_kept s = (is_count (max_records s) \<and> count_ok s)"

subsection \<open>The retention steps in the specification's words\<close>

text \<open>
  The age limit in force; a record is fresh when its age is within the limit; the age
  pass keeps the fresh records; the count pass keeps the first \<open>n\<close>; the orphan pass
  removes every file directly inside the image directory that no surviving image record
  names.
\<close>

definition age_limit :: "storage \<Rightarrow> int option" where
  "age_limit s =
     (case config s of None \<Rightarrow> None | Some c \<Rightarrow> limit_of (get_max_age_minutes c))"

definition fresh :: "real \<Rightarrow> int \<Rightarrow> crecord \<Rightarrow> bool" where
  "fresh now m r = (now - rid r \<le> real_of_int m * 60)"

definition keep_fresh :: "real \<Rightarrow> int option \<Rightarrow> crecord list \<Rightarrow> crecord list" where
  "keep_fresh now bound rs = (case bound of None \<Rightarrow> rs | Some m \<Rightarrow> filter (fresh now m) rs)"

definition expired :: "real \<Rightarrow> int option \<Rightarrow> crecord list \<Rightarrow> crecord list" where
  "expired now bound rs =
     (case bound of None \<Rightarrow> [] | Some m \<Rightarrow> filter (\<lambda>r. \<not> fresh now m r) rs)"

definition keep_first :: "int option \<Rightarrow> crecord list \<Rightarrow> crecord list" where
  "keep_first bound rs = (case bound of None \<Rightarrow> rs | Some n \<Rightarrow> take (nat n) rs)"

definition orphan :: "crecord list \<Rightarrow> path \<Rightarrow> bool" where
  "orphan survivors p = (child_name temp_dir p \<noteq> None \<and> p \<notin> image_paths survivors)"

text \<open>Every record of a list is within the age limit in force.\<close>

definition within_age :: "real \<Rightarrow> int option \<Rightarrow> crecord list \<Rightarrow> bool" where
  "within_age now bound rs =
     (case bound of None \<Rightarrow> True | Some m \<Rightarrow> list_all (fresh now m) rs)"

subsection \<open>The poll step (\<^verbatim>\<open>clipboard_monitor.py\<close>)\<close>

text \<open>
  \<^verbatim>\<open>self.last_content\<close> is \<^verbatim>\<open>None\<close>, a string (a text, or the hash of an image) or the
  file list of a file drop. The clipboard offers each format or not. Of a bitmap only
  its MD5 digest and what the image library makes of it matter here: \<^verbatim>\<open>Image.open\<close>
  raises, or \<^verbatim>\<open>Image.open\<close> succeeds and \<^verbatim>\<open>image.save\<close> raises (leaving no file), or
  both succeed. The calls that open the clipboard and fetch its data are taken to succeed.
\<close>

datatype last_seen = LastNone | LastStr string | LastFiles "string list"

datatype decoding = OpenFails | SaveFails | Decodes

record dib =
  dib_hash :: string
  dib_decoding :: decoding

record clipboard =
  cf_unicodetext :: "string option"
  cf_text :: "string option"
  cf_hdrop :: "string list option"
  cf_dib :: "dib option"

record monitor =
  last_content :: last_seen
  store :: storage

text \<open>\<^verbatim>\<open>'\n'.join(files)\<close>.\<close>

fun join_lines :: "string list \<Rightarrow> string" where
  "join_lines [] = []"
| "join_lines [x] = x"
| "join_lines (x # y # ys) = x @ [CHR 0x0A] @ join_lines (y # ys)"

text \<open>\<^verbatim>\<open>os.makedirs(d, exist_ok=True)\<close> and \<^verbatim>\<open>image.save(path)\<close>.\<close>

definition makedirs :: "filesystem \<Rightarrow> path \<Rightarrow> filesystem" where
  "makedirs fs d = (if d \<in> set (dirs fs) then fs else fs\<lparr>dirs := d # dirs fs\<rparr>)"

definition save_image :: "filesystem \<Rightarrow> path \<Rightarrow> filesystem" where
  "save_image fs p = (if isfile fs p then fs else fs\<lparr>files := p # files fs\<rparr>)"

text \<open>
  \<^verbatim>\<open>_handle_new_content\<close>: \<open>t_id\<close> and \<open>stamp\<close> are the two readings of
  \<^verbatim>\<open>datetime.now()\<close>, \<open>now\<close> the later \<^verbatim>\<open>time.time()\<close> of the age filter.
\<close>

definition handle_new_content ::
  "real \<Rightarrow> string \<Rightarrow> real \<Rightarrow> string \<Rightarrow> string \<Rightarrow> storage \<Rightarrow> filesystem
     \<Rightarrow> storage \<times> filesystem" where
  "handle_new_content t_id stamp now content_type c s fs =
     add_record now
       \<lparr>rid = t_id, content = c, rtype = content_type, timestamp = stamp,
        favorited = False\<rparr> s fs"

text \<open>
  \<^verbatim>\<open>_check_clipboard\<close>, one poll. The formats are tried in the order of the
  \<^verbatim>\<open>if\<close>/\<^verbatim>\<open>elif\<close> chain. In each branch \<^verbatim>\<open>self.last_content\<close> is assigned after
  \<^verbatim>\<open>_handle_new_content\<close> returns. In the bitmap branch \<^verbatim>\<open>Image.open\<close> comes first,
  then \<^verbatim>\<open>os.makedirs\<close>, then \<^verbatim>\<open>image.save\<close>; an exception of either library call
  leaves the \<^verbatim>\<open>try\<close> block before the record is made and before the assignment, the
  second one after the directory has been made.
\<close>

definition check_clipboard ::
  "real \<Rightarrow> string \<Rightarrow> real \<Rightarrow> clipboard \<Rightarrow> monitor \<Rightarrow> filesystem \<Rightarrow> monitor \<times> filesystem" where
  "check_clipboard t_id stamp now cb m fs =
     (case cf_unicodetext cb of
        Some c \<Rightarrow>
          if LastStr c \<noteq> last_content m
          then (let (s', fs') = handle_new_content t_id stamp now ''text'' c (store m) fs
                in (m\<lparr>store := s', last_content := LastStr c\<rparr>, fs'))
          else (m, fs)
      | None \<Rightarrow>
     (case cf_text cb of
        Some c \<Rightarrow>
          if LastStr c \<noteq> last_content m
          then (let (s', fs') = handle_new_content t_id stamp now ''text'' c (store m) fs
                in (m\<lparr>store := s', last_content := LastStr c\<rparr>, fs'))
          else (m, fs)
      | None \<Rightarrow>
     (case cf_hdrop cb of
        Some fl \<Rightarrow>
          if LastFiles fl \<noteq> last_content m
          then (let (s', fs') =
                      handle_new_content t_id stamp now ''file'' (join_lines fl) (store m) fs
                in (m\<lparr>store := s', last_content := LastFiles fl\<rparr>, fs'))
          else (m, fs)
      | None \<Rightarrow>
     (case cf_dib cb of
        Some d \<Rightarrow>
          let image_hash = dib_hash d
          in if LastStr image_hash \<noteq> last_content m
             then (case dib_decoding d of
                     OpenFails \<Rightarrow> (m, fs)
                   | SaveFails \<Rightarrow> (m, makedirs fs temp_dir)
                   | Decodes \<Rightarrow>
                       (let temp_path =
                              join temp_dir (''temp_image_'' @ take 8 image_hash @ ''.png'');
                            fs1 = save_image (makedirs fs temp_dir) temp_path;
                            (s', fs') =
                              handle_new_content t_id stamp now ''image'' temp_path
                                (store m) fs1
                        in (m\<lparr>store := s', last_content := LastStr image_hash\<rparr>, fs')))
             else (m, fs)
      | None \<Rightarrow> (m, fs)))))"

subsection \<open>Leaving the application (\<^verbatim>\<open>main.py\<close>, \<^verbatim>\<open>main_window.py\<close>)\<close>

text \<open>
  \<^verbatim>\<open>MainWindow.quit_application\<close> clears the store under the test
  \<^verbatim>\<open>self.config and self.config.get_clear_data_on_exit()\<close>, where \<^verbatim>\<open>self.config\<close> is
  the constructor's argument \<^verbatim>\<open>config\<close> (default \<^verbatim>\<open>None\<close>). \<^verbatim>\<open>main()\<close> builds the
  store as \<^verbatim>\<open>Storage()\<close> and the window as \<^verbatim>\<open>MainWindow(storage, monitor)\<close>: no
  \<^verbatim>\<open>Config\<close> is constructed.
\<close>

definition quit_application :: "config option \<Rightarrow> storage \<Rightarrow> filesystem \<Rightarrow> storage \<times> filesystem" where
  "quit_application window_config s fs =
     (case window_config of
        None \<Rightarrow> (s, fs)
      | Some c \<Rightarrow> if truthy (get_clear_data_on_exit c) then clear_all s fs else (s, fs))"

definition main_window_config :: "config option" where
  "main_window_config = None"

definition main_storage :: "real \<Rightarrow> filesystem \<Rightarrow> storage \<times> filesystem" where
  "main_storage now fs = Storage_init None (Some 50) now fs"

subsection \<open>Sample records, disk and store\<close>

text \<open>Concrete states on which the theorems below are exercised.\<close>

definition note_a :: crecord where
  "note_a = \<lparr>rid = 100, content = ''alpha'', rtype = ''text'',
             timestamp = ''2024-01-01 10:01:40'', favorited = False\<rparr>"

definition note_b :: crecord where
  "note_b = \<lparr>rid = 200, content = ''beta'', rtype = ''text'',
             timestamp = ''2024-01-01 10:03:20'', favorited = False\<rparr>"

definition shot_path :: path where
  "shot_path = ''temp_images/temp_image_0a1b2c3d.png''"

definition shot :: crecord where
  "shot = \<lparr>rid = 50, content = shot_path, rtype = ''image'',
           timestamp = ''2024-01-01 10:00:50'', favorited = False\<rparr>"

text \<open>The text of \<open>note_a\<close> copied again later; a new text stamped with the id of \<open>note_a\<close>;
  an image stamped with the id of \<open>note_a\<close>.\<close>

definition again :: crecord where
  "again = \<lparr>rid = 300, content = ''alpha'', rtype = ''text'',
            timestamp = ''2024-01-01 10:05:00'', favorited = False\<rparr>"

definition twin :: crecord where
  "twin = \<lparr>rid = 100, content = ''gamma'', rtype = ''text'',
           timestamp = ''2024-01-01 10:01:40'', favorited = False\<rparr>"

definition shot_twin :: crecord where
  "shot_twin = \<lparr>rid = 100, content = shot_path, rtype = ''image'',
                timestamp = ''2024-01-01 10:01:40'', favorited = False\<rparr>"

definition disk0 :: filesystem where
  "disk0 = \<lparr>files = [shot_path, data_file], dirs = [temp_dir],
            data_json = Some [shot, note_a, note_b]\<rparr>"

definition store0 :: storage where
  "store0 = \<lparr>config = None, max_records = Some 50, records = [note_b, note_a, shot]\<rparr>"

text \<open>A configuration file that sets a one-minute age limit, and the store using it.\<close>

definition one_minute :: config where
  "one_minute = Config_init (ConfigJson [''max_age_minutes'' \<mapsto> JInt 1])"

definition store_aged :: storage where
  "store_aged = \<lparr>config = Some one_minute, max_records = None,
                  records = [note_b, note_a, shot]\<rparr>"

text \<open>An empty disk and the store that \<^verbatim>\<open>Storage()\<close> builds on it; a store limited to one
  record; a store built with \<^verbatim>\<open>max_records = -1\<close> and the disk after its load; a store
  in which an image and a text carry the same id.\<close>

definition disk_empty :: filesystem where
  "disk_empty = \<lparr>files = [], dirs = [], data_json = None\<rparr>"

definition store_empty :: storage where
  "store_empty = \<lparr>config = None, max_records = Some 50, records = []\<rparr>"

definition store_one :: storage where
  "store_one = \<lparr>config = None, max_records = Some 1, records = [shot]\<rparr>"

definition store_neg :: storage where
  "store_neg = \<lparr>config = None, max_records = Some (- 1), records = [note_b, note_a]\<rparr>"

definition disk_neg :: filesystem where
  "disk_neg = \<lparr>files = [data_file], dirs = [temp_dir],
               data_json = Some [shot, note_a, note_b]\<rparr>"

definition store_clash :: storage where
  "store_clash = \<lparr>config = None, max_records = Some 50, records = [shot_twin, note_a]\<rparr>"

definition sample_ops :: "operation list" where
  "sample_ops = [Add 300 again, Delete 200]"

text \<open>A disk to load from: three image files (one expired, one kept, one that no record
  names) and four records; the store that loads it keeps one record for one minute.\<close>

definition keeper_path :: path where
  "keeper_path = ''temp_images/temp_image_11112222.png''"

definition stray_path :: path where
  "stray_path = ''temp_images/temp_image_deadbeef.png''"

definition keeper :: crecord where
  "keeper = \<lparr>rid = 220, content = keeper_path, rtype = ''image'',
             timestamp = ''2024-01-01 10:03:40'', favorited = False\<rparr>"

definition disk_load :: filesystem where
  "disk_load = \<lparr>files = [shot_path, keeper_path, stray_path, data_file], dirs = [temp_dir],
                data_json = Some [shot, note_a, keeper, note_b]\<rparr>"

definition store_fresh :: storage where
  "store_fresh = \<lparr>config = Some one_minute, max_records = Some 1, records = []\<rparr>"

text \<open>Clipboards: a text, a legacy text, a file drop, a bitmap the image library cannot
  open, one it cannot save and the same bitmap accepted; a monitor that has seen nothing
  yet.\<close>

definition clip_text :: clipboard where
  "clip_text = \<lparr>cf_unicodetext = Some ''alpha'', cf_text = None, cf_hdrop = None,
                cf_dib = None\<rparr>"

definition clip_ansi :: clipboard where
  "clip_ansi = \<lparr>cf_unicodetext = None, cf_text = Some ''beta'', cf_hdrop = None,
                cf_dib = None\<rparr>"

definition clip_files :: clipboard where
  "clip_files = \<lparr>cf_unicodetext = None, cf_text = None,
                 cf_hdrop = Some [''C:/a.txt'', ''C:/b.txt''], cf_dib = None\<rparr>"

definition bad_dib :: dib where
  "bad_dib = \<lparr>dib_hash = ''0a1b2c3d4e5f60718293a4b5c6d7e8f9'', dib_decoding = OpenFails\<rparr>"

definition torn_dib :: dib where
  "torn_dib = \<lparr>dib_hash = ''0a1b2c3d4e5f60718293a4b5c6d7e8f9'', dib_decoding = SaveFails\<rparr>"

definition good_dib :: dib where
  "good_dib = \<lparr>dib_hash = ''0a1b2c3d4e5f60718293a4b5c6d7e8f9'', dib_decoding = Decodes\<rparr>"

definition clip_image :: "dib \<Rightarrow> clipboard" where
  "clip_image d = \<lparr>cf_unicodetext = None, cf_text = None, cf_hdrop = None, cf_dib = Some d\<rparr>"

definition mon0 :: monitor where
  "mon0 = \<lparr>last_content = LastNone, store = store_empty\<rparr>"

definition stamp0 :: string where
  "stamp0 = ''2024-01-01 10:00:50''"

text \<open>A session that adds a text with a new content; a store with a one-minute age limit
  and room for exactly three records.\<close>

definition dup_ops :: "operation list" where
  "dup_ops = [Add 260 twin]"

definition store_tight :: storage where
  "store_tight = \<lparr>config = Some one_minute, max_records = Some 3,
                   records = [note_b, note_a]\<rparr>"

section \<open>Properties\<close>

subsection \<open>Unfolding sets for evaluation on the sample states\<close>

lemmas sample_defs = note_a_def note_b_def shot_def shot_path_def again_def twin_def
  shot_twin_def disk0_def store0_def one_minute_def store_aged_def data_file_def temp_dir_def
  disk_empty_def store_empty_def store_one_def store_neg_def disk_neg_def store_clash_def
  sample_ops_def keeper_path_def stray_path_def keeper_def disk_load_def store_fresh_def
  clip_text_def clip_ansi_def clip_files_def bad_dib_def torn_dib_def good_dib_def
  clip_image_def mon0_def stamp0_def dup_ops_def store_tight_def

lemmas config_defs = Config_init_def load_config_def load_default_config_def
  get_max_records_def get_max_age_minutes_def get_clear_data_on_exit_def

lemmas disk_defs = isfile_def path_exists_def unlink_def delete_file_permanently_def
  under_def child_name_def listdir_def rmtree_def write_data_file_def read_data_file_def
  join_def List.map_filter_def

lemmas store_defs = slice_to_def slice_from_def delete_image_file_def
  delete_image_files_def filter_by_age_def save_data_def add_record_def update_config_def
  delete_record_def delete_multiple_def clear_all_def sort_by_id_desc_def image_paths_def
  cleanup_step_def cleanup_orphaned_images_def load_data_def Storage_init_def

lemmas monitor_defs = makedirs_def save_image_def handle_new_content_def check_clipboard_def

lemmas exit_defs = quit_application_def main_window_config_def main_storage_def

subsection \<open>Facts about the disk and the store operations\<close>

lemma delete_image_file_eq:
  "delete_image_file r fs =
     fs\<lparr>files := (if rtype r = ''image'' then removeAll (content r) (files fs) else files fs)\<rparr>"
  by (simp add: delete_image_file_def delete_file_permanently_def unlink_def isfile_def
      path_exists_def)

lemma filter_removeAll_insert:
  "filter (\<lambda>p. p \<notin> A) (removeAll x xs) = filter (\<lambda>p. p \<notin> insert x A) xs"
  by (induction xs) auto

lemma image_paths_Cons:
  "image_paths (r # rs) =
     (if rtype r = ''image'' then insert (content r) (image_paths rs) else image_paths rs)"
  by (simp add: image_paths_def)

lemma delete_image_files_eq:
  "delete_image_files rs fs = fs\<lparr>files := filter (\<lambda>p. p \<notin> image_paths rs) (files fs)\<rparr>"
proof (induction rs arbitrary: fs)
  case Nil
  show ?case by (simp add: delete_image_files_def image_paths_def)
next
  case (Cons r rs)
  have "delete_image_files (r # rs) fs = delete_image_files rs (delete_image_file r fs)"
    by (simp add: delete_image_files_def)
  also have "\<dots> = fs\<lparr>files := filter (\<lambda>p. p \<notin> image_paths (r # rs)) (files fs)\<rparr>"
    by (simp add: Cons.IH delete_image_file_eq image_paths_Cons filter_removeAll_insert)
  finally show ?case .
qed

lemma filter_by_age_eq:
  "filter_by_age now s fs =
     (s\<lparr>records := keep_fresh now (age_limit s) (records s)\<rparr>,
      delete_image_files (expired now (age_limit s) (records s)) fs)"
  by (simp add: filter_by_age_def age_limit_def keep_fresh_def expired_def
      fresh_def[abs_def] delete_image_files_def Let_def split: option.splits)

lemma save_data_empty:
  "save_data (s\<lparr>records := []\<rparr>) fs =
     (s\<lparr>records := []\<rparr>, case write_data_file [] fs of Some fs2 \<Rightarrow> fs2 | None \<Rightarrow> fs)"
  by (simp add: save_data_def slice_to_def slice_from_def delete_image_files_def
      split: option.splits)

lemma files_after_write:
  "set (files (case write_data_file rs fs of Some fs2 \<Rightarrow> fs2 | None \<Rightarrow> fs))
     \<subseteq> insert data_file (set (files fs))"
  by (auto simp: write_data_file_def isfile_def)

lemma dirs_after_write:
  "dirs (case write_data_file rs fs of Some fs2 \<Rightarrow> fs2 | None \<Rightarrow> fs) = dirs fs"
  by (simp add: write_data_file_def)

lemma files_delete_existing:
  "files (if path_exists fs p then snd (delete_file_permanently p fs) else fs)
     = removeAll p (files fs)"
  by (simp add: delete_file_permanently_def unlink_def isfile_def path_exists_def)

lemma dirs_delete_existing:
  "dirs (if path_exists fs p then snd (delete_file_permanently p fs) else fs) = dirs fs"
  by (simp add: delete_file_permanently_def unlink_def)

lemma files_rmtree_existing:
  "set (files (if path_exists fs d
               then (case rmtree fs d of Some fs' \<Rightarrow> fs' | None \<Rightarrow> fs) else fs))
     \<subseteq> set (files fs)"
  by (auto simp: rmtree_def)

lemma dirs_rmtree_existing:
  "d \<notin> set (dirs (if path_exists fs d
               then (case rmtree fs d of Some fs' \<Rightarrow> fs' | None \<Rightarrow> fs) else fs))"
  by (auto simp: rmtree_def path_exists_def)

lemma find_dup_SomeD:
  "find_dup r xs = Some i \<Longrightarrow>
     i < length xs \<and> content (xs ! i) = content r \<and> rtype (xs ! i) = rtype r
     \<and> (\<forall>j<i. \<not> (content (xs ! j) = content r \<and> rtype (xs ! j) = rtype r))"
proof (induction xs arbitrary: i)
  case Nil
  then show ?case by simp
next
  case (Cons e es)
  show ?case
  proof (cases "content e = content r \<and> rtype e = rtype r")
    case True
    with Cons.prems show ?thesis by simp
  next
    case False
    with Cons.prems obtain k where k: "find_dup r es = Some k" "i = Suc k"
      by auto
    from Cons.IH[OF k(1)] False k(2) show ?thesis
      by (auto simp: nth_Cons less_Suc_eq_0_disj split: nat.splits)
  qed
qed

lemma find_dup_None_iff:
  "find_dup r xs = None \<longleftrightarrow> (\<forall>e\<in>set xs. \<not> (content e = content r \<and> rtype e = rtype r))"
  by (induction xs) auto

lemma remove1_update_first:
  "i < length xs \<Longrightarrow> (\<forall>j<i. xs ! j \<noteq> e) \<Longrightarrow>
     remove1 e (xs[i := e]) = take i xs @ drop (Suc i) xs"
proof (induction xs arbitrary: i)
  case Nil
  then show ?case by simp
next
  case (Cons x xs)
  show ?case
  proof (cases i)
    case 0
    then show ?thesis by simp
  next
    case (Suc k)
    with Cons.prems have "x \<noteq> e" by auto
    moreover from Cons.prems Suc have "k < length xs" "\<forall>j<k. xs ! j \<noteq> e" by auto
    ultimately show ?thesis using Cons.IH[of k] Suc by simp
  qed
qed

lemma save_data_records:
  "records (fst (save_data s fs)) =
     (case max_records s of
        None \<Rightarrow> records s
      | Some n \<Rightarrow> if int (length (records s)) > n then slice_to n (records s) else records s)"
  by (simp add: save_data_def split: option.splits)

lemma save_data_count_ok:
  "count_ok s \<Longrightarrow> records (fst (save_data s fs)) = records s"
  by (simp add: save_data_records count_ok_def split: option.splits)

lemma add_record_dup_records:
  assumes "find_dup r (records s) = Some i"
  shows "add_record now r s fs =
     save_data (s\<lparr>records := (records s ! i)\<lparr>rid := rid r, timestamp := timestamp r\<rparr>
                    # take i (records s) @ drop (Suc i) (records s)\<rparr>) fs"
proof -
  let ?e = "(records s ! i)\<lparr>rid := rid r, timestamp := timestamp r\<rparr>"
  from find_dup_SomeD[OF assms]
  have i: "i < length (records s)"
    and first: "\<forall>j<i. \<not> (content (records s ! j) = content r \<and> rtype (records s ! j) = rtype r)"
    and m: "content (records s ! i) = content r" "rtype (records s ! i) = rtype r"
    by auto
  have "\<forall>j<i. records s ! j \<noteq> ?e"
  proof (intro allI impI notI)
    fix j assume "j < i" and eq: "records s ! j = ?e"
    from eq have "content (records s ! j) = content ?e" "rtype (records s ! j) = rtype ?e"
      by simp_all
    with m first \<open>j < i\<close> show False by simp
  qed
  with i have "remove1 ?e ((records s)[i := ?e]) = take i (records s) @ drop (Suc i) (records s)"
    by (rule remove1_update_first)
  then show ?thesis
    by (simp add: add_record_def assms Let_def)
qed

lemma descending_iff: "descending rs \<longleftrightarrow> sorted_wrt (\<lambda>a b. rid b \<le> rid a) rs"
proof -
  have "transp (\<lambda>a b :: crecord. rid b \<le> rid a)"
    by (auto simp: transp_def)
  from sorted_wrt_iff_nth_Suc_transp[OF this] show ?thesis
    by (simp add: descending_def)
qed

lemma descending_slice_to: "descending xs \<Longrightarrow> descending (slice_to n xs)"
  by (simp add: descending_iff slice_to_def)

lemma descending_keep_fresh: "descending xs \<Longrightarrow> descending (keep_fresh now b xs)"
  by (simp add: descending_iff keep_fresh_def sorted_wrt_filter split: option.splits)

lemma descending_filter: "descending xs \<Longrightarrow> descending (filter P xs)"
  by (simp add: descending_iff sorted_wrt_filter)

lemma descending_save_data:
  "descending (records s) \<Longrightarrow> descending (records (fst (save_data s fs)))"
  by (simp add: save_data_records descending_slice_to split: option.splits)

lemma descending_sort: "descending (sort_by_id_desc rs)"
proof -
  have "sorted (map (\<lambda>x. - rid x) (sort_key (\<lambda>x. - rid x) rs))"
    by (rule sorted_sort_key)
  then show ?thesis
    by (simp add: descending_iff sort_by_id_desc_def sorted_map)
qed

lemma descending_move_front:
  assumes "descending xs" and "i < length xs" and "\<forall>x\<in>set xs. rid x \<le> rid e"
  shows "descending (e # take i xs @ drop (Suc i) xs)"
proof -
  have "xs = take i xs @ xs ! i # drop (Suc i) xs"
    using assms(2) by (rule id_take_nth_drop)
  then have "sorted_wrt (\<lambda>a b. rid b \<le> rid a) (take i xs @ xs ! i # drop (Suc i) xs)"
    using assms(1) by (simp add: descending_iff)
  then have "sorted_wrt (\<lambda>a b. rid b \<le> rid a) (take i xs @ drop (Suc i) xs)"
    by (auto simp: sorted_wrt_append)
  moreover have "\<forall>x\<in>set (take i xs @ drop (Suc i) xs). rid x \<le> rid e"
    using assms(3) by (auto dest: in_set_takeD in_set_dropD)
  ultimately show ?thesis
    by (simp add: descending_iff)
qed

lemma descending_add_record:
  assumes "descending (records s)" and "list_all (\<lambda>e. rid e \<le> rid r) (records s)"
  shows "descending (records (fst (add_record now r s fs)))"
proof (cases "find_dup r (records s)")
  case None
  have "descending (r # records s)"
    using assms by (simp add: descending_iff list_all_iff)
  then have "descending (keep_fresh now (age_limit s) (r # records s))"
    by (rule descending_keep_fresh)
  then have "descending (case max_records s of
                 None \<Rightarrow> keep_fresh now (age_limit s) (r # records s)
               | Some n \<Rightarrow> slice_to n (keep_fresh now (age_limit s) (r # records s)))"
    by (simp add: descending_slice_to split: option.splits)
  then show ?thesis
    using None
    by (auto simp: add_record_def filter_by_age_eq age_limit_def Let_def
        intro!: descending_save_data split: option.splits)
next
  case (Some i)
  from find_dup_SomeD[OF Some] have i: "i < length (records s)" by simp
  let ?e = "(records s ! i)\<lparr>rid := rid r, timestamp := timestamp r\<rparr>"
  have "\<forall>x\<in>set (records s). rid x \<le> rid ?e"
    using assms(2) by (simp add: list_all_iff)
  with assms(1) i have "descending (?e # take i (records s) @ drop (Suc i) (records s))"
    by (rule descending_move_front)
  then show ?thesis
    by (simp add: add_record_dup_records[OF Some] descending_save_data)
qed

lemma descending_delete_record:
  "descending (records s) \<Longrightarrow> descending (records (fst (delete_record record_id s fs)))"
  by (simp add: delete_record_def Let_def descending_save_data descending_filter)

lemma descending_delete_multiple:
  "descending (records s) \<Longrightarrow> descending (records (fst (delete_multiple ids s fs)))"
  by (simp add: delete_multiple_def Let_def descending_save_data descending_filter)

lemma descending_clear_all: "descending (records (fst (clear_all s fs)))"
  by (simp add: clear_all_def save_data_empty Let_def descending_def)

lemma descending_update_config:
  assumes "descending (records s)"
  shows "descending (records (fst (update_config now c s fs)))"
proof -
  let ?s0 = "s\<lparr>config := Some c, max_records := limit_of (get_max_records c)\<rparr>"
  let ?k = "keep_fresh now (age_limit ?s0) (records s)"
  have k: "descending ?k"
    using assms by (rule descending_keep_fresh)
  show ?thesis
    using k
    by (auto simp: update_config_def filter_by_age_eq Let_def descending_slice_to
        intro!: descending_save_data split: option.splits)
qed

lemma descending_load_data:
  assumes "descending (records s)"
  shows "descending (records (fst (load_data now s fs)))"
proof -
  have "descending (keep_fresh now (age_limit s) (sort_by_id_desc loaded))" for loaded
    by (intro descending_keep_fresh descending_sort)
  then show ?thesis
    using assms
    by (auto simp: load_data_def filter_by_age_eq age_limit_def Let_def descending_slice_to
        descending_def[of "[]"] split: option.splits)
qed

lemma descending_Storage_init:
  "descending (records (fst (Storage_init cfg m now fs)))"
  unfolding Storage_init_def by (rule descending_load_data) (simp add: descending_def)

lemma descending_apply_op:
  "descending (records (fst st)) \<Longrightarrow> adds_max_id x (fst st)
     \<Longrightarrow> descending (records (fst (apply_op x st)))"
  by (cases st; cases x)
     (simp_all add: descending_add_record descending_delete_record
        descending_delete_multiple descending_update_config descending_clear_all)

lemma descending_run:
  "descending (records (fst st)) \<Longrightarrow> ids_increase ops st
     \<Longrightarrow> descending (records (fst (run ops st)))"
proof (induction ops arbitrary: st)
  case Nil
  then show ?case by simp
next
  case (Cons x xs)
  from Cons.prems have "descending (records (fst (apply_op x st)))"
    by (simp add: descending_apply_op)
  with Cons.prems show ?case
    by (simp add: Cons.IH)
qed

lemma save_data_ok:
  "count_ok s \<Longrightarrow>
     save_data s fs = (s, case write_data_file (records s) fs of Some f \<Rightarrow> f | None \<Rightarrow> fs)"
  by (auto simp: save_data_def count_ok_def split: option.splits)

lemma count_ok_filter:
  assumes "count_ok s"
  shows "count_ok (s\<lparr>records := filter P (records s)\<rparr>)"
proof (cases "max_records s")
  case None
  then show ?thesis by (simp add: count_ok_def)
next
  case (Some n)
  have "int (length (filter P (records s))) \<le> int (length (records s))" by simp
  also have "\<dots> \<le> n" using assms Some by (simp add: count_ok_def)
  finally show ?thesis using Some by (simp add: count_ok_def)
qed

lemma slice_to_nonneg: "0 \<le> n \<Longrightarrow> slice_to n xs = take (nat n) xs"
  by (simp add: slice_to_def)

lemma cleanup_step_eq:
  "cleanup_step P n fs =
     fs\<lparr>files := (if join temp_dir n \<in> P then files fs
                    else removeAll (join temp_dir n) (files fs))\<rparr>"
  by (simp add: cleanup_step_def delete_file_permanently_def unlink_def isfile_def Let_def)

lemma fold_cleanup_step:
  "fold (cleanup_step P) names fs =
     fs\<lparr>files := filter (\<lambda>p. \<not> (p \<in> join temp_dir ` set names \<and> p \<notin> P)) (files fs)\<rparr>"
proof (induction names arbitrary: fs)
  case Nil
  show ?case by simp
next
  case (Cons n names)
  let ?rest = "\<lambda>p. \<not> (p \<in> join temp_dir ` set names \<and> p \<notin> P)"
  let ?after = "if join temp_dir n \<in> P then files fs
                else removeAll (join temp_dir n) (files fs)"
  have H: "filter ?rest ?after
        = filter (\<lambda>p. \<not> (p \<in> join temp_dir ` set (n # names) \<and> p \<notin> P)) (files fs)"
    by (auto simp: removeAll_filter_not_eq intro: filter_cong)
  have "fold (cleanup_step P) (n # names) fs = fold (cleanup_step P) names (cleanup_step P n fs)"
    by simp
  also have "\<dots> = (cleanup_step P n fs)\<lparr>files := filter ?rest (files (cleanup_step P n fs))\<rparr>"
    by (rule Cons.IH)
  also have "\<dots> = fs\<lparr>files := filter ?rest ?after\<rparr>"
    by (simp add: cleanup_step_eq)
  also have "\<dots> = fs\<lparr>files :=
      filter (\<lambda>p. \<not> (p \<in> join temp_dir ` set (n # names) \<and> p \<notin> P)) (files fs)\<rparr>"
    by (simp only: H)
  finally show ?case .
qed

lemma child_name_join:
  assumes "child_name d p = Some n"
  shows "join d n = p"
proof -
  from assms have u: "take (length d + 1) p = d @ ''/''" and n: "n = drop (length d + 1) p"
    by (auto simp: child_name_def under_def Let_def split: if_splits)
  have "join d n = take (length d + 1) p @ drop (length d + 1) p"
    by (simp only: join_def n u append_assoc)
  also have "\<dots> = p"
    by (rule append_take_drop_id)
  finally show ?thesis .
qed

lemma listed_iff:
  assumes "p \<in> set (files fs)"
  shows "p \<in> join d ` set (List.map_filter (child_name d) (files fs @ dirs fs))
           \<longleftrightarrow> child_name d p \<noteq> None"
proof
  assume "p \<in> join d ` set (List.map_filter (child_name d) (files fs @ dirs fs))"
  then obtain q n where "child_name d q = Some n" "p = join d n"
    by (auto simp: List.map_filter_def)
  then show "child_name d p \<noteq> None"
    using child_name_join[of d q n] by auto
next
  assume "child_name d p \<noteq> None"
  then obtain n where n: "child_name d p = Some n" by auto
  with assms have "n \<in> set (List.map_filter (child_name d) (files fs @ dirs fs))"
    by (force simp: List.map_filter_def)
  with child_name_join[OF n] show "p \<in> join d ` set (List.map_filter (child_name d) (files fs @ dirs fs))"
    by blast
qed

lemma cleanup_orphaned_images_eq:
  assumes "temp_dir \<in> set (dirs fs)"
  shows "cleanup_orphaned_images s fs =
           fs\<lparr>files := filter (\<lambda>p. \<not> orphan (records s) p) (files fs)\<rparr>"
proof -
  have "filter (\<lambda>p. \<not> (p \<in> join temp_dir `
                    set (List.map_filter (child_name temp_dir) (files fs @ dirs fs))
                  \<and> p \<notin> image_paths (records s))) (files fs)
        = filter (\<lambda>p. \<not> orphan (records s) p) (files fs)"
    by (rule filter_cong) (simp_all add: listed_iff orphan_def)
  then show ?thesis
    using assms
    by (simp add: cleanup_orphaned_images_def path_exists_def listdir_def fold_cleanup_step)
qed

lemma sort_by_id_desc_mset: "mset (sort_by_id_desc rs) = mset rs"
  by (simp add: sort_by_id_desc_def)

lemma slice_to_count: "0 \<le> n \<Longrightarrow> int (length (slice_to n xs)) \<le> n"
  by (simp add: slice_to_def)

lemma limit_kept_cut:
  assumes "is_count (max_records s)"
  shows "limit_kept (case max_records s of None \<Rightarrow> s
                     | Some n \<Rightarrow> s\<lparr>records := slice_to n (records s)\<rparr>)"
  using assms
  by (auto simp: limit_kept_def is_count_def count_ok_def slice_to_count split: option.splits)

lemma limit_kept_save:
  assumes "is_count (max_records s)"
  shows "limit_kept (fst (save_data s fs))"
proof -
  have m: "max_records (fst (save_data s fs)) = max_records s"
    by (simp add: save_data_def split: option.splits)
  show ?thesis
    using assms
    by (auto simp: limit_kept_def m count_ok_def save_data_records is_count_def slice_to_count
        split: option.splits)
qed

lemma limit_kept_add_record:
  assumes "is_count (max_records s)"
  shows "limit_kept (fst (add_record now r s fs))"
proof (cases "find_dup r (records s)")
  case None
  let ?s2 = "s\<lparr>records := keep_fresh now (age_limit s) (r # records s)\<rparr>"
  let ?fs2 = "delete_image_files (expired now (age_limit s) (r # records s)) fs"
  have al: "age_limit (s\<lparr>records := r # records s\<rparr>) = age_limit s"
    by (simp add: age_limit_def)
  have fb: "filter_by_age now (s\<lparr>records := r # records s\<rparr>) fs = (?s2, ?fs2)"
    by (simp add: filter_by_age_eq al)
  have eq: "add_record now r s fs =
      save_data (case max_records ?s2 of None \<Rightarrow> ?s2
          | Some n \<Rightarrow> ?s2\<lparr>records := slice_to n (records ?s2)\<rparr>) ?fs2"
    by (simp only: add_record_def None option.case Let_def fb prod.case)
  have "is_count (max_records (case max_records ?s2 of None \<Rightarrow> ?s2
          | Some n \<Rightarrow> ?s2\<lparr>records := slice_to n (records ?s2)\<rparr>))"
    using assms by (cases "max_records s") simp_all
  then show ?thesis
    unfolding eq by (rule limit_kept_save)
next
  case (Some i)
  show ?thesis
    unfolding add_record_dup_records[OF Some]
    by (rule limit_kept_save) (simp add: assms)
qed

lemma limit_kept_delete_record:
  "is_count (max_records s) \<Longrightarrow> limit_kept (fst (delete_record record_id s fs))"
  by (simp add: delete_record_def Let_def limit_kept_save)

lemma limit_kept_delete_multiple:
  "is_count (max_records s) \<Longrightarrow> limit_kept (fst (delete_multiple ids s fs))"
  by (simp add: delete_multiple_def Let_def limit_kept_save)

lemma limit_kept_clear_all:
  "is_count (max_records s) \<Longrightarrow> limit_kept (fst (clear_all s fs))"
  by (simp add: clear_all_def save_data_empty Let_def limit_kept_def count_ok_def is_count_def
      split: option.splits)

lemma limit_kept_update_config:
  assumes "is_count (limit_of (get_max_records c))"
  shows "limit_kept (fst (update_config now c s fs))"
proof -
  let ?s0 = "s\<lparr>config := Some c, max_records := limit_of (get_max_records c)\<rparr>"
  let ?s1 = "?s0\<lparr>records := keep_fresh now (age_limit ?s0) (records ?s0)\<rparr>"
  let ?fs1 = "delete_image_files (expired now (age_limit ?s0) (records ?s0)) fs"
  let ?cut = "(case max_records ?s1 of
               None \<Rightarrow> (?s1, ?fs1)
             | Some n \<Rightarrow>
                 if int (length (records ?s1)) > n
                 then (?s1\<lparr>records := slice_to n (records ?s1)\<rparr>,
                       delete_image_files (slice_from n (records ?s1)) ?fs1)
                 else (?s1, ?fs1))"
  have fb: "filter_by_age now ?s0 fs = (?s1, ?fs1)"
    by (simp add: filter_by_age_eq)
  have eq: "update_config now c s fs =
      (if length (records (fst ?cut)) < length (records ?s0)
       then save_data (fst ?cut) (snd ?cut) else ?cut)"
    by (simp only: update_config_def Let_def fb prod.case split_beta fst_conv snd_conv)
       (simp add: split_beta)
  have k: "limit_kept (fst ?cut)"
    using assms
    by (auto simp: limit_kept_def is_count_def count_ok_def slice_to_count split: option.splits)
  then have "is_count (max_records (fst ?cut))"
    by (simp add: limit_kept_def)
  then have "limit_kept (fst (save_data (fst ?cut) (snd ?cut)))"
    by (rule limit_kept_save)
  with k show ?thesis
    unfolding eq by (simp split: if_splits)
qed

lemma limit_kept_load_data:
  assumes "limit_kept s"
  shows "limit_kept (fst (load_data now s fs))"
proof -
  have ic: "is_count (max_records s)" using assms by (simp add: limit_kept_def)
  have e: "limit_kept (s\<lparr>records := []\<rparr>)"
    using ic by (simp add: limit_kept_def count_ok_def is_count_def split: option.splits)
  have c: "limit_kept (case max_records s of None \<Rightarrow> s\<lparr>records := xs\<rparr>
                     | Some n \<Rightarrow> s\<lparr>records := slice_to n xs\<rparr>)" for xs
    using limit_kept_cut[of "s\<lparr>records := xs\<rparr>"] ic by (simp split: option.splits)
  show ?thesis
    using assms e c
    by (auto simp: load_data_def filter_by_age_eq Let_def split: option.splits)
qed

lemma limit_kept_Storage_init:
  assumes "is_count (case cfg of None \<Rightarrow> m | Some c \<Rightarrow> limit_of (get_max_records c))"
  shows "limit_kept (fst (Storage_init cfg m now fs))"
  unfolding Storage_init_def
  by (rule limit_kept_load_data)
     (use assms in \<open>simp add: limit_kept_def count_ok_def is_count_def split: option.splits\<close>)

lemma limit_kept_apply_op:
  assumes "limit_kept (fst st)" and "sets_count x"
  shows "limit_kept (fst (apply_op x st))"
proof -
  obtain s fs where st: "st = (s, fs)" by (cases st)
  have ic: "is_count (max_records s)"
    using assms(1) st by (simp add: limit_kept_def)
  show ?thesis
    using ic assms(2) unfolding st
    by (cases x)
       (simp_all add: limit_kept_add_record limit_kept_delete_record
          limit_kept_delete_multiple limit_kept_update_config limit_kept_clear_all)
qed

lemma limit_kept_run:
  "limit_kept (fst st) \<Longrightarrow> list_all sets_count ops \<Longrightarrow> limit_kept (fst (run ops st))"
proof (induction ops arbitrary: st)
  case Nil
  then show ?case by simp
next
  case (Cons x xs)
  from Cons.prems have "limit_kept (fst (apply_op x st))"
    by (simp add: limit_kept_apply_op)
  with Cons.prems show ?case
    by (simp add: Cons.IH)
qed

lemma add_record_new_list:
  assumes "find_dup r (records s) = None"
    and "max_records s = None \<or> (\<exists>n\<ge>0. max_records s = Some n)"
  shows "records (fst (add_record now r s fs)) =
           keep_first (max_records s) (keep_fresh now (age_limit s) (r # records s))"
proof -
  let ?k = "keep_fresh now (age_limit s) (r # records s)"
  let ?fs2 = "delete_image_files (expired now (age_limit s) (r # records s)) fs"
  let ?s2 = "s\<lparr>records := ?k\<rparr>"
  let ?s3 = "s\<lparr>records := keep_first (max_records s) ?k\<rparr>"
  have al: "age_limit (s\<lparr>records := r # records s\<rparr>) = age_limit s"
    by (simp add: age_limit_def)
  have fb: "filter_by_age now (s\<lparr>records := r # records s\<rparr>) fs = (?s2, ?fs2)"
    by (simp add: filter_by_age_eq al)
  have cut: "(case max_records ?s2 of None \<Rightarrow> ?s2
          | Some n \<Rightarrow> ?s2\<lparr>records := slice_to n (records ?s2)\<rparr>) = ?s3"
    using assms(2) by (auto simp: keep_first_def slice_to_nonneg)
  have "add_record now r s fs =
      save_data (case max_records ?s2 of None \<Rightarrow> ?s2
          | Some n \<Rightarrow> ?s2\<lparr>records := slice_to n (records ?s2)\<rparr>) ?fs2"
    by (simp only: add_record_def assms(1) option.case Let_def fb prod.case)
  then have eq: "add_record now r s fs = save_data ?s3 ?fs2"
    by (simp only: cut)
  have "count_ok ?s3"
    using assms(2) by (auto simp: count_ok_def keep_first_def)
  then show ?thesis
    by (simp add: eq save_data_count_ok)
qed

lemma add_record_new_records:
  assumes "find_dup r (records s) = None"
    and "is_count (max_records s)"
  shows "records (fst (add_record now r s fs)) =
           keep_first (max_records s) (keep_fresh now (age_limit s) (r # records s))"
  using add_record_new_list[OF assms(1), of now fs] assms(2)
  by (auto simp: is_count_def split: option.splits)

lemma keep_fresh_within_age:
  "within_age now bound rs \<Longrightarrow> keep_fresh now bound rs = rs"
  by (auto simp: within_age_def keep_fresh_def list_all_iff split: option.splits)

subsection \<open>Duplicate insert\<close>

text \<open>
  C1. In every store state reached by the constructor and any sequence of operations
  (every limit being a count), adding a record whose content and type match an existing
  record overwrites the id and timestamp of the first such record in the list with the
  new record's, moves it to the front, keeps every other record in its order, creates no
  second entry, and leaves the length of the list unchanged.
\<close>

theorem add_record_duplicate:
  assumes "limits_are_counts cfg m ops"
    and "s = fst (run ops (Storage_init cfg m t0 fs0))"
    and "e \<in> set (records s)" and "content e = content r" and "rtype e = rtype r"
  shows "\<exists>i<length (records s).
           content (records s ! i) = content r \<and> rtype (records s ! i) = rtype r
         \<and> (\<forall>j<i. \<not> (content (records s ! j) = content r \<and> rtype (records s ! j) = rtype r))
         \<and> records (fst (add_record now r s fs)) =
             (records s ! i)\<lparr>rid := rid r, timestamp := timestamp r\<rparr>
               # take i (records s) @ drop (Suc i) (records s)
         \<and> length (records (fst (add_record now r s fs))) = length (records s)"
proof -
  have "limit_kept s"
    using assms(1) unfolding assms(2) limits_are_counts_def
    by (intro limit_kept_run limit_kept_Storage_init) simp_all
  then have ok: "count_ok s" by (simp add: limit_kept_def)
  from assms(3-5) obtain i where fd: "find_dup r (records s) = Some i"
    using find_dup_None_iff[of r "records s"] by (cases "find_dup r (records s)") auto
  from find_dup_SomeD[OF fd]
  have i: "i < length (records s)"
    and m: "content (records s ! i) = content r" "rtype (records s ! i) = rtype r"
    and first: "\<forall>j<i. \<not> (content (records s ! j) = content r \<and> rtype (records s ! j) = rtype r)"
    by auto
  let ?new = "(records s ! i)\<lparr>rid := rid r, timestamp := timestamp r\<rparr>
               # take i (records s) @ drop (Suc i) (records s)"
  have len: "length ?new = length (records s)"
    using i by simp
  have "count_ok (s\<lparr>records := ?new\<rparr>)"
    using ok len by (simp add: count_ok_def split: option.splits)
  then have "records (fst (add_record now r s fs)) = ?new"
    by (simp add: add_record_dup_records[OF fd] save_data_count_ok)
  with i m first len show ?thesis by auto
qed

text \<open>The theorem on the sample disk: load, add \<open>gamma\<close>, then copy \<open>alpha\<close> again; the
  match sits at the third place and is moved to the front.\<close>

theorem add_record_duplicate_witness:
  "limits_are_counts None (Some 50) dup_ops
   \<and> fst (run dup_ops (Storage_init None (Some 50) 250 disk0))
       = store0\<lparr>records := [twin, note_b, note_a, shot]\<rparr>
   \<and> note_a \<in> set (records (store0\<lparr>records := [twin, note_b, note_a, shot]\<rparr>))
   \<and> content note_a = content again \<and> rtype note_a = rtype again
   \<and> records (fst (add_record 300 again (store0\<lparr>records := [twin, note_b, note_a, shot]\<rparr>) disk0))
       = [again, twin, note_b, shot]
   \<and> length (records (fst (add_record 300 again
                 (store0\<lparr>records := [twin, note_b, note_a, shot]\<rparr>) disk0)))
       = length (records (store0\<lparr>records := [twin, note_b, note_a, shot]\<rparr>))"
proof -
  let ?s = "store0\<lparr>records := [twin, note_b, note_a, shot]\<rparr>"
  have h1: "limits_are_counts None (Some 50) dup_ops"
    by (simp add: limits_are_counts_def is_count_def dup_ops_def)
  have r: "fst (run dup_ops (Storage_init None (Some 50) 250 disk0)) = ?s"
    by (simp add: sample_defs disk_defs store_defs Let_def)
  have h2: "?s = fst (run dup_ops (Storage_init None (Some 50) 250 disk0))"
    by (simp only: r)
  have h3: "note_a \<in> set (records ?s)" by simp
  have h4: "content note_a = content again" by (simp add: note_a_def again_def)
  have h5: "rtype note_a = rtype again" by (simp add: note_a_def again_def)
  have ev: "records (fst (add_record 300 again ?s disk0)) = [again, twin, note_b, shot]"
    by (simp add: sample_defs disk_defs store_defs Let_def)
  from add_record_duplicate[OF h1 h2 h3 h4 h5, where now = 300 and fs = disk0]
  have "length (records (fst (add_record 300 again ?s disk0))) = length (records ?s)"
    by blast
  with h1 r h3 h4 h5 ev show ?thesis by blast
qed

subsection \<open>Count limit and evicted images\<close>

text \<open>
  C3. The code departs from the claim in \<^verbatim>\<open>add_record\<close>: with \<open>max_records = 1\<close> and an
  image record in the list, adding a new text evicts the image record, and the image file
  is still on disk afterwards. The cut in \<^verbatim>\<open>add_record\<close> runs before \<^verbatim>\<open>_save_data\<close>,
  whose own cut is the one that deletes files; saving the uncut list does delete the file.
\<close>

theorem add_record_keeps_evicted_image:
  "shot \<in> set (records store_one) \<and> rtype shot = ''image''
   \<and> records (fst (add_record 300 note_b store_one disk0)) = [note_b]
   \<and> isfile (snd (add_record 300 note_b store_one disk0)) (content shot)
   \<and> records (fst (save_data (store_one\<lparr>records := [note_b, shot]\<rparr>) disk0)) = [note_b]
   \<and> \<not> isfile (snd (save_data (store_one\<lparr>records := [note_b, shot]\<rparr>) disk0)) (content shot)"
  by (simp add: sample_defs disk_defs store_defs Let_def)

subsection \<open>Age limit\<close>

text \<open>
  C4. With \<open>max_age_minutes\<close> configured to \<open>M\<close>, after an age-filter pass at time
  \<open>now\<close> every surviving record has \<open>now - id \<le> M * 60\<close>, and the content path of every
  filtered-out image record is no longer a file.
\<close>

theorem filter_by_age_bound:
  assumes "config s = Some c" and "get_max_age_minutes c = JInt M"
    and "filter_by_age now s fs = (s', fs')"
  shows "(\<forall>r\<in>set (records s'). now - rid r \<le> real_of_int M * 60)
     \<and> (\<forall>r\<in>set (records s). r \<notin> set (records s') \<and> rtype r = ''image''
           \<longrightarrow> \<not> isfile fs' (content r))"
proof -
  have lim: "age_limit s = Some M"
    using assms(1,2) by (simp add: age_limit_def)
  have s': "records s' = filter (fresh now M) (records s)"
    and fs': "files fs' =
      filter (\<lambda>p. p \<notin> image_paths (filter (\<lambda>r. \<not> fresh now M r) (records s))) (files fs)"
    using assms(3)
    by (auto simp: filter_by_age_eq lim keep_fresh_def expired_def delete_image_files_eq)
  show ?thesis
    by (auto simp: s' fs' fresh_def isfile_def image_paths_def)
qed

text \<open>The theorem on the sample store with a one-minute limit, at time 250: only
  \<open>note_b\<close> (age 50) survives, and the file of the expired image is gone.\<close>

theorem filter_by_age_bound_witness:
  "config store_aged = Some one_minute \<and> get_max_age_minutes one_minute = JInt 1
   \<and> filter_by_age 250 store_aged disk0
       = (store_aged\<lparr>records := [note_b]\<rparr>, disk0\<lparr>files := [data_file]\<rparr>)
   \<and> 250 - rid note_b \<le> real_of_int 1 * 60
   \<and> isfile disk0 (content shot)
   \<and> \<not> isfile (disk0\<lparr>files := [data_file]\<rparr>) (content shot)"
proof -
  have h1: "config store_aged = Some one_minute" by (simp add: store_aged_def)
  have h2: "get_max_age_minutes one_minute = JInt 1"
    by (simp add: one_minute_def config_defs)
  have h3: "filter_by_age 250 store_aged disk0
       = (store_aged\<lparr>records := [note_b]\<rparr>, disk0\<lparr>files := [data_file]\<rparr>)"
    by (simp add: sample_defs config_defs disk_defs store_defs Let_def)
  note T = filter_by_age_bound[OF h1 h2 h3]
  have m1: "note_b \<in> set (records (store_aged\<lparr>records := [note_b]\<rparr>))" by simp
  have m2: "shot \<in> set (records store_aged)" "rtype shot = ''image''"
    "shot \<notin> set (records (store_aged\<lparr>records := [note_b]\<rparr>))"
    by (simp_all add: store_aged_def shot_def note_b_def)
  have c1: "250 - rid note_b \<le> real_of_int 1 * 60"
    using T m1 by blast
  have c2: "\<not> isfile (disk0\<lparr>files := [data_file]\<rparr>) (content shot)"
    using T m2 by blast
  have c3: "isfile disk0 (content shot)"
    by (simp add: isfile_def disk0_def shot_def)
  from h1 h2 h3 c1 c2 c3 show ?thesis by blast
qed

subsection \<open>Clearing the store\<close>

text \<open>
  C5. After \<^verbatim>\<open>clear_all\<close> the record list is empty, the content path of every image
  record that was in the list is no longer a file, the image directory is gone together
  with every file under it, and the data file is no longer on disk.
\<close>

theorem clear_all_leaves_nothing:
  assumes "clear_all s fs = (s', fs')"
  shows "records s' = []
     \<and> (\<forall>r\<in>set (records s). rtype r = ''image'' \<longrightarrow> \<not> isfile fs' (content r))
     \<and> temp_dir \<notin> set (dirs fs')
     \<and> (temp_dir \<in> set (dirs fs) \<longrightarrow> (\<forall>p\<in>set (files fs'). \<not> under temp_dir p))
     \<and> \<not> isfile fs' data_file"
proof -
  define fs1 where "fs1 = delete_image_files (records s) fs"
  define fs2 where "fs2 = (case write_data_file [] fs1 of Some f \<Rightarrow> f | None \<Rightarrow> fs1)"
  define fs3 where "fs3 = (if path_exists fs2 data_file
                 then snd (delete_file_permanently data_file fs2) else fs2)"
  define fs4 where "fs4 = (if path_exists fs3 temp_dir
                 then (case rmtree fs3 temp_dir of Some fs' \<Rightarrow> fs' | None \<Rightarrow> fs3)
                 else fs3)"
  have "clear_all s fs = (s\<lparr>records := []\<rparr>, fs4)"
    by (simp only: clear_all_def save_data_empty Let_def prod.case
        fs1_def fs2_def fs3_def fs4_def)
  with assms have s': "s' = s\<lparr>records := []\<rparr>" and fs': "fs' = fs4" by simp_all
  have f1: "set (files fs1) = set (files fs) - image_paths (records s)"
    by (auto simp: fs1_def delete_image_files_eq)
  have f2: "set (files fs2) \<subseteq> insert data_file (set (files fs1))"
    unfolding fs2_def by (rule files_after_write)
  have f3: "set (files fs3) = set (files fs2) - {data_file}"
    unfolding fs3_def by (simp add: files_delete_existing)
  have f4: "set (files fs4) \<subseteq> set (files fs3)"
    unfolding fs4_def by (rule files_rmtree_existing)
  have d4: "temp_dir \<notin> set (dirs fs4)"
    unfolding fs4_def by (rule dirs_rmtree_existing)
  have d1: "dirs fs1 = dirs fs"
    by (simp add: fs1_def delete_image_files_eq)
  have d2: "dirs fs2 = dirs fs1"
    unfolding fs2_def by (rule dirs_after_write)
  have "dirs fs3 = dirs fs2"
    unfolding fs3_def by (rule dirs_delete_existing)
  with d1 d2 have d3: "dirs fs3 = dirs fs" by simp
  have u4: "temp_dir \<in> set (dirs fs) \<Longrightarrow> \<forall>p\<in>set (files fs4). \<not> under temp_dir p"
    unfolding fs4_def using d3 by (auto simp: rmtree_def path_exists_def)
  have sub: "set (files fs4) \<subseteq> set (files fs) - image_paths (records s) - {data_file}"
    using f1 f2 f3 f4 by blast
  have img: "\<And>r. r \<in> set (records s) \<Longrightarrow> rtype r = ''image''
               \<Longrightarrow> content r \<in> image_paths (records s)"
    by (auto simp: image_paths_def)
  show ?thesis
    using sub d4 u4 img by (auto simp: s' fs' isfile_def)
qed

text \<open>The theorem on the sample store: its one image file, the image directory and the
  data file were on disk before and are gone after.\<close>

theorem clear_all_leaves_nothing_witness:
  "clear_all store0 disk0 = (store0\<lparr>records := []\<rparr>, disk_empty\<lparr>data_json := Some []\<rparr>)
   \<and> shot \<in> set (records store0) \<and> rtype shot = ''image'' \<and> isfile disk0 (content shot)
   \<and> temp_dir \<in> set (dirs disk0) \<and> isfile disk0 data_file
   \<and> records (store0\<lparr>records := []\<rparr>) = []
   \<and> \<not> isfile (disk_empty\<lparr>data_json := Some []\<rparr>) (content shot)
   \<and> temp_dir \<notin> set (dirs (disk_empty\<lparr>data_json := Some []\<rparr>))
   \<and> files (disk_empty\<lparr>data_json := Some []\<rparr>) = []
   \<and> \<not> isfile (disk_empty\<lparr>data_json := Some []\<rparr>) data_file"
proof -
  have h: "clear_all store0 disk0 = (store0\<lparr>records := []\<rparr>, disk_empty\<lparr>data_json := Some []\<rparr>)"
    by (simp add: sample_defs disk_defs store_defs Let_def)
  note T = clear_all_leaves_nothing[OF h]
  have m: "shot \<in> set (records store0)" "rtype shot = ''image''"
    by (simp_all add: store0_def shot_def)
  have b: "isfile disk0 (content shot)" "temp_dir \<in> set (dirs disk0)" "isfile disk0 data_file"
    by (simp_all add: isfile_def disk0_def shot_def)
  have c: "\<not> isfile (disk_empty\<lparr>data_json := Some []\<rparr>) (content shot)"
    using T m by blast
  have e: "files (disk_empty\<lparr>data_json := Some []\<rparr>) = []"
    by (simp add: disk_empty_def)
  from h m b c e T show ?thesis by blast
qed

subsection \<open>Retention on load\<close>

text \<open>
  C2. When the data file is read, the loaded records are sorted by id descending (a
  rearrangement of what was loaded), then the age pass keeps the fresh ones (deleting the
  files of expired image records), then the count pass keeps the first \<open>max_records\<close>,
  and then every file directly inside the image directory that is not the content of a
  surviving image record is deleted: the resulting list and disk are exactly the result
  of these four steps in this order.
\<close>

theorem load_retention_order:
  assumes "isfile fs data_file" and "data_json fs = Some loaded"
    and "max_records s = None \<or> (\<exists>n\<ge>0. max_records s = Some n)"
    and "temp_dir \<in> set (dirs fs)"
    and "sorted_records = sort_by_id_desc loaded"
    and "survivors = keep_first (max_records s) (keep_fresh now (age_limit s) sorted_records)"
  shows "descending sorted_records \<and> mset sorted_records = mset loaded
     \<and> records (fst (load_data now s fs)) = survivors
     \<and> files (snd (load_data now s fs)) =
         filter (\<lambda>p. \<not> orphan survivors p)
           (filter (\<lambda>p. p \<notin> image_paths (expired now (age_limit s) sorted_records)) (files fs))
     \<and> dirs (snd (load_data now s fs)) = dirs fs"
proof -
  let ?s1 = "s\<lparr>records := sorted_records\<rparr>"
  let ?k = "keep_fresh now (age_limit s) sorted_records"
  let ?fs2 = "delete_image_files (expired now (age_limit s) sorted_records) fs"
  let ?s2 = "s\<lparr>records := ?k\<rparr>"
  let ?s3 = "s\<lparr>records := survivors\<rparr>"
  have al: "age_limit ?s1 = age_limit s" by (simp add: age_limit_def)
  have fb: "filter_by_age now ?s1 fs = (?s2, ?fs2)"
    by (simp add: filter_by_age_eq al)
  have cut: "(case max_records ?s2 of None \<Rightarrow> ?s2
          | Some n \<Rightarrow> ?s2\<lparr>records := slice_to n (records ?s2)\<rparr>) = ?s3"
    using assms(3) by (auto simp: assms(6) keep_first_def slice_to_nonneg)
  have rd: "path_exists fs data_file" "read_data_file fs = Some loaded"
    using assms(1,2) by (simp_all add: path_exists_def read_data_file_def isfile_def)
  have "load_data now s fs =
      (let s3 = (case max_records ?s2 of None \<Rightarrow> ?s2
          | Some n \<Rightarrow> ?s2\<lparr>records := slice_to n (records ?s2)\<rparr>)
       in (s3, cleanup_orphaned_images s3 ?fs2))"
    by (simp only: load_data_def rd if_True option.case Let_def fb prod.case assms(5)[symmetric])
  then have ld: "load_data now s fs = (?s3, cleanup_orphaned_images ?s3 ?fs2)"
    by (simp only: cut Let_def)
  have d2: "temp_dir \<in> set (dirs ?fs2)"
    using assms(4) by (simp add: delete_image_files_eq)
  have c: "cleanup_orphaned_images ?s3 ?fs2 =
             ?fs2\<lparr>files := filter (\<lambda>p. \<not> orphan survivors p) (files ?fs2)\<rparr>"
    using cleanup_orphaned_images_eq[OF d2, of ?s3] by simp
  have r1: "fst (load_data now s fs) = ?s3"
    and r2: "snd (load_data now s fs) =
             ?fs2\<lparr>files := filter (\<lambda>p. \<not> orphan survivors p) (files ?fs2)\<rparr>"
    by (simp_all only: ld fst_conv snd_conv c)
  have srt: "descending sorted_records" "mset sorted_records = mset loaded"
    by (simp_all add: assms(5) descending_sort sort_by_id_desc_mset)
  have f: "files (snd (load_data now s fs)) =
         filter (\<lambda>p. \<not> orphan survivors p)
           (filter (\<lambda>p. p \<notin> image_paths (expired now (age_limit s) sorted_records)) (files fs))"
    and d: "dirs (snd (load_data now s fs)) = dirs fs"
    unfolding r2 by (simp_all add: delete_image_files_eq)
  have r: "records (fst (load_data now s fs)) = survivors"
    unfolding r1 by simp
  from srt r f d show ?thesis by blast
qed

text \<open>The theorem on the sample disk, at time 250 with a one-minute limit and room for one
  record: of four loaded records the newest image survives; the expired image's file
  goes in the age pass and the file no record names goes in the orphan pass.\<close>

theorem load_retention_order_witness:
  "isfile disk_load data_file \<and> data_json disk_load = Some [shot, note_a, keeper, note_b]
   \<and> max_records store_fresh = Some 1 \<and> temp_dir \<in> set (dirs disk_load)
   \<and> sort_by_id_desc [shot, note_a, keeper, note_b] = [keeper, note_b, note_a, shot]
   \<and> keep_fresh 250 (age_limit store_fresh) [keeper, note_b, note_a, shot] = [keeper, note_b]
   \<and> records (fst (load_data 250 store_fresh disk_load)) = [keeper]
   \<and> files (snd (load_data 250 store_fresh disk_load)) = [keeper_path, data_file]"
proof -
  have h1: "isfile disk_load data_file" by (simp add: isfile_def disk_load_def)
  have h2: "data_json disk_load = Some [shot, note_a, keeper, note_b]"
    by (simp add: disk_load_def)
  have m: "max_records store_fresh = Some 1" by (simp add: store_fresh_def)
  then have h3: "max_records store_fresh = None \<or> (\<exists>n\<ge>0. max_records store_fresh = Some n)"
    by simp
  have h4: "temp_dir \<in> set (dirs disk_load)" by (simp add: disk_load_def)
  have h5: "[keeper, note_b, note_a, shot] = sort_by_id_desc [shot, note_a, keeper, note_b]"
    by (simp add: sort_by_id_desc_def keeper_def note_a_def note_b_def shot_def)
  have al: "age_limit store_fresh = Some 1"
    by (simp add: age_limit_def store_fresh_def one_minute_def config_defs)
  have k: "keep_fresh 250 (age_limit store_fresh) [keeper, note_b, note_a, shot] = [keeper, note_b]"
    by (simp add: al keep_fresh_def fresh_def keeper_def note_a_def note_b_def shot_def)
  have x: "expired 250 (age_limit store_fresh) [keeper, note_b, note_a, shot] = [note_a, shot]"
    by (simp add: al expired_def fresh_def keeper_def note_a_def note_b_def shot_def)
  have h6: "[keeper] = keep_first (max_records store_fresh)
              (keep_fresh 250 (age_limit store_fresh) [keeper, note_b, note_a, shot])"
    by (simp add: k m keep_first_def)
  note T = load_retention_order[OF h1 h2 h3 h4 h5 h6]
  have r: "records (fst (load_data 250 store_fresh disk_load)) = [keeper]"
    using T by blast
  have "files (snd (load_data 250 store_fresh disk_load)) =
         filter (\<lambda>p. \<not> orphan [keeper] p)
           (filter (\<lambda>p. p \<notin> image_paths (expired 250 (age_limit store_fresh)
                                             [keeper, note_b, note_a, shot]))
              (files disk_load))"
    using T by blast
  also have "\<dots> = filter (\<lambda>p. \<not> orphan [keeper] p)
           (filter (\<lambda>p. p \<notin> image_paths [note_a, shot]) (files disk_load))"
    by (simp only: x)
  also have "\<dots> = [keeper_path, data_file]"
    by (simp add: orphan_def image_paths_def sample_defs disk_defs)
  finally have f: "files (snd (load_data 250 store_fresh disk_load)) = [keeper_path, data_file]" .
  from h1 h2 m h4 h5[symmetric] k r f show ?thesis by blast
qed

subsection \<open>The last-seen value of the poll step\<close>

text \<open>
  C6 (amended). In one poll, a detected text change (either text format) or file-drop
  change passes a new record with that content to \<^verbatim>\<open>add_record\<close> and then sets the
  last-seen value to the new value, whatever \<^verbatim>\<open>add_record\<close> does with the record. A
  detected image change does the same, after saving the image file, only when the image
  is opened and saved. When opening or saving the image fails, the poll leaves the
  last-seen value and the store as they were (and the disk too, except that a failed save
  comes after the image directory has been made), so the same clipboard content is a
  detected change again at the next poll.
\<close>

theorem poll_last_seen:
  "(cf_unicodetext cb = Some c \<and> LastStr c \<noteq> last_content m
      \<longrightarrow> check_clipboard t_id stamp now cb m fs =
            (m\<lparr>store := fst (add_record now
                     \<lparr>rid = t_id, content = c, rtype = ''text'', timestamp = stamp,
                      favorited = False\<rparr> (store m) fs),
               last_content := LastStr c\<rparr>,
             snd (add_record now
                     \<lparr>rid = t_id, content = c, rtype = ''text'', timestamp = stamp,
                      favorited = False\<rparr> (store m) fs)))
   \<and> (cf_unicodetext cb = None \<and> cf_text cb = Some c \<and> LastStr c \<noteq> last_content m
      \<longrightarrow> check_clipboard t_id stamp now cb m fs =
            (m\<lparr>store := fst (add_record now
                     \<lparr>rid = t_id, content = c, rtype = ''text'', timestamp = stamp,
                      favorited = False\<rparr> (store m) fs),
               last_content := LastStr c\<rparr>,
             snd (add_record now
                     \<lparr>rid = t_id, content = c, rtype = ''text'', timestamp = stamp,
                      favorited = False\<rparr> (store m) fs)))
   \<and> (cf_unicodetext cb = None \<and> cf_text cb = None \<and> cf_hdrop cb = Some fl
        \<and> LastFiles fl \<noteq> last_content m
      \<longrightarrow> check_clipboard t_id stamp now cb m fs =
            (m\<lparr>store := fst (add_record now
                     \<lparr>rid = t_id, content = join_lines fl, rtype = ''file'',
                      timestamp = stamp, favorited = False\<rparr> (store m) fs),
               last_content := LastFiles fl\<rparr>,
             snd (add_record now
                     \<lparr>rid = t_id, content = join_lines fl, rtype = ''file'',
                      timestamp = stamp, favorited = False\<rparr> (store m) fs)))
   \<and> (cf_unicodetext cb = None \<and> cf_text cb = None \<and> cf_hdrop cb = None
        \<and> cf_dib cb = Some d \<and> LastStr (dib_hash d) \<noteq> last_content m
        \<and> dib_decoding d = Decodes
      \<longrightarrow> check_clipboard t_id stamp now cb m fs =
            (m\<lparr>store := fst (add_record now
                     \<lparr>rid = t_id,
                      content = join temp_dir (''temp_image_'' @ take 8 (dib_hash d) @ ''.png''),
                      rtype = ''image'', timestamp = stamp, favorited = False\<rparr> (store m)
                     (save_image (makedirs fs temp_dir)
                        (join temp_dir (''temp_image_'' @ take 8 (dib_hash d) @ ''.png'')))),
               last_content := LastStr (dib_hash d)\<rparr>,
             snd (add_record now
                     \<lparr>rid = t_id,
                      content = join temp_dir (''temp_image_'' @ take 8 (dib_hash d) @ ''.png''),
                      rtype = ''image'', timestamp = stamp, favorited = False\<rparr> (store m)
                     (save_image (makedirs fs temp_dir)
                        (join temp_dir (''temp_image_'' @ take 8 (dib_hash d) @ ''.png''))))))
   \<and> (cf_unicodetext cb = None \<and> cf_text cb = None \<and> cf_hdrop cb = None
        \<and> cf_dib cb = Some d \<and> LastStr (dib_hash d) \<noteq> last_content m
        \<and> dib_decoding d = OpenFails
      \<longrightarrow> check_clipboard t_id stamp now cb m fs = (m, fs)
          \<and> LastStr (dib_hash d) \<noteq> last_content (fst (check_clipboard t_id stamp now cb m fs)))
   \<and> (cf_unicodetext cb = None \<and> cf_text cb = None \<and> cf_hdrop cb = None
        \<and> cf_dib cb = Some d \<and> LastStr (dib_hash d) \<noteq> last_content m
        \<and> dib_decoding d = SaveFails
      \<longrightarrow> check_clipboard t_id stamp now cb m fs = (m, makedirs fs temp_dir)
          \<and> LastStr (dib_hash d) \<noteq> last_content (fst (check_clipboard t_id stamp now cb m fs)))"
  by (simp add: check_clipboard_def handle_new_content_def Let_def split_beta)

text \<open>The theorem on the sample clipboards, starting from a monitor that has seen nothing
  and an empty disk.\<close>

theorem poll_last_seen_witness:
  "last_content (fst (check_clipboard 100 stamp0 100 clip_text mon0 disk_empty))
     = LastStr ''alpha''
   \<and> map content (records (store (fst (check_clipboard 100 stamp0 100 clip_text mon0 disk_empty))))
     = [''alpha'']
   \<and> last_content (fst (check_clipboard 100 stamp0 100 clip_ansi mon0 disk_empty))
     = LastStr ''beta''
   \<and> map content (records (store (fst (check_clipboard 100 stamp0 100 clip_ansi mon0 disk_empty))))
     = [''beta'']
   \<and> last_content (fst (check_clipboard 100 stamp0 100 clip_files mon0 disk_empty))
     = LastFiles [''C:/a.txt'', ''C:/b.txt'']
   \<and> map rtype (records (store (fst (check_clipboard 100 stamp0 100 clip_files mon0 disk_empty))))
     = [''file'']
   \<and> last_content (fst (check_clipboard 100 stamp0 100 (clip_image good_dib) mon0 disk_empty))
     = LastStr (dib_hash good_dib)
   \<and> map content (records (store (fst (check_clipboard 100 stamp0 100 (clip_image good_dib)
                                        mon0 disk_empty))))
     = [''temp_images/temp_image_0a1b2c3d.png'']
   \<and> check_clipboard 100 stamp0 100 (clip_image bad_dib) mon0 disk_empty = (mon0, disk_empty)
   \<and> check_clipboard 100 stamp0 100 (clip_image torn_dib) mon0 disk_empty
       = (mon0, disk_empty\<lparr>dirs := [temp_dir]\<rparr>)"
proof -
  note T = poll_last_seen[where m = mon0 and t_id = 100 and stamp = stamp0 and now = 100
      and fs = disk_empty]
  have e1: "check_clipboard 100 stamp0 100 clip_text mon0 disk_empty =
            (mon0\<lparr>store := fst (add_record 100
                     \<lparr>rid = 100, content = ''alpha'', rtype = ''text'', timestamp = stamp0,
                      favorited = False\<rparr> (store mon0) disk_empty),
               last_content := LastStr ''alpha''\<rparr>,
             snd (add_record 100
                     \<lparr>rid = 100, content = ''alpha'', rtype = ''text'', timestamp = stamp0,
                      favorited = False\<rparr> (store mon0) disk_empty))"
    using T[where cb = clip_text and c = "''alpha''", THEN conjunct1]
    by (simp add: clip_text_def mon0_def)
  have a1: "last_content (fst (check_clipboard 100 stamp0 100 clip_text mon0 disk_empty))
              = LastStr ''alpha''
    \<and> map content (records (store (fst (check_clipboard 100 stamp0 100 clip_text mon0 disk_empty))))
              = [''alpha'']"
    unfolding e1 by (simp add: sample_defs disk_defs store_defs Let_def)
  have e2: "check_clipboard 100 stamp0 100 clip_ansi mon0 disk_empty =
            (mon0\<lparr>store := fst (add_record 100
                     \<lparr>rid = 100, content = ''beta'', rtype = ''text'', timestamp = stamp0,
                      favorited = False\<rparr> (store mon0) disk_empty),
               last_content := LastStr ''beta''\<rparr>,
             snd (add_record 100
                     \<lparr>rid = 100, content = ''beta'', rtype = ''text'', timestamp = stamp0,
                      favorited = False\<rparr> (store mon0) disk_empty))"
    using T[where cb = clip_ansi and c = "''beta''", THEN conjunct2, THEN conjunct1]
    by (simp add: clip_ansi_def mon0_def)
  have a2: "last_content (fst (check_clipboard 100 stamp0 100 clip_ansi mon0 disk_empty))
              = LastStr ''beta''
    \<and> map content (records (store (fst (check_clipboard 100 stamp0 100 clip_ansi mon0 disk_empty))))
              = [''beta'']"
    unfolding e2 by (simp add: sample_defs disk_defs store_defs Let_def)
  have e3: "check_clipboard 100 stamp0 100 clip_files mon0 disk_empty =
            (mon0\<lparr>store := fst (add_record 100
                     \<lparr>rid = 100, content = join_lines [''C:/a.txt'', ''C:/b.txt''],
                      rtype = ''file'', timestamp = stamp0, favorited = False\<rparr>
                     (store mon0) disk_empty),
               last_content := LastFiles [''C:/a.txt'', ''C:/b.txt'']\<rparr>,
             snd (add_record 100
                     \<lparr>rid = 100, content = join_lines [''C:/a.txt'', ''C:/b.txt''],
                      rtype = ''file'', timestamp = stamp0, favorited = False\<rparr>
                     (store mon0) disk_empty))"
    using T[where cb = clip_files and fl = "[''C:/a.txt'', ''C:/b.txt'']",
        THEN conjunct2, THEN conjunct2, THEN conjunct1]
    by (simp add: clip_files_def mon0_def)
  have a3: "last_content (fst (check_clipboard 100 stamp0 100 clip_files mon0 disk_empty))
              = LastFiles [''C:/a.txt'', ''C:/b.txt'']
    \<and> map rtype (records (store (fst (check_clipboard 100 stamp0 100 clip_files mon0 disk_empty))))
              = [''file'']"
    unfolding e3 by (simp add: sample_defs disk_defs store_defs Let_def)
  have e4: "check_clipboard 100 stamp0 100 (clip_image good_dib) mon0 disk_empty =
            (mon0\<lparr>store := fst (add_record 100
                     \<lparr>rid = 100,
                      content = join temp_dir
                        (''temp_image_'' @ take 8 (dib_hash good_dib) @ ''.png''),
                      rtype = ''image'', timestamp = stamp0, favorited = False\<rparr> (store mon0)
                     (save_image (makedirs disk_empty temp_dir)
                        (join temp_dir
                          (''temp_image_'' @ take 8 (dib_hash good_dib) @ ''.png'')))),
               last_content := LastStr (dib_hash good_dib)\<rparr>,
             snd (add_record 100
                     \<lparr>rid = 100,
                      content = join temp_dir
                        (''temp_image_'' @ take 8 (dib_hash good_dib) @ ''.png''),
                      rtype = ''image'', timestamp = stamp0, favorited = False\<rparr> (store mon0)
                     (save_image (makedirs disk_empty temp_dir)
                        (join temp_dir
                          (''temp_image_'' @ take 8 (dib_hash good_dib) @ ''.png'')))))"
    using T[where cb = "clip_image good_dib" and d = good_dib,
        THEN conjunct2, THEN conjunct2, THEN conjunct2, THEN conjunct1]
    by (simp add: clip_image_def good_dib_def mon0_def)
  have a4: "last_content (fst (check_clipboard 100 stamp0 100 (clip_image good_dib) mon0 disk_empty))
              = LastStr (dib_hash good_dib)
    \<and> map content (records (store (fst (check_clipboard 100 stamp0 100 (clip_image good_dib)
                                        mon0 disk_empty))))
              = [''temp_images/temp_image_0a1b2c3d.png'']"
    unfolding e4 by (simp add: sample_defs disk_defs store_defs monitor_defs Let_def)
  have a5: "check_clipboard 100 stamp0 100 (clip_image bad_dib) mon0 disk_empty
              = (mon0, disk_empty)"
    using T[where cb = "clip_image bad_dib" and d = bad_dib,
        THEN conjunct2, THEN conjunct2, THEN conjunct2, THEN conjunct2, THEN conjunct1]
    by (simp add: clip_image_def bad_dib_def mon0_def)
  have "check_clipboard 100 stamp0 100 (clip_image torn_dib) mon0 disk_empty
              = (mon0, makedirs disk_empty temp_dir)"
    using T[where cb = "clip_image torn_dib" and d = torn_dib,
        THEN conjunct2, THEN conjunct2, THEN conjunct2, THEN conjunct2, THEN conjunct2]
    by (simp add: clip_image_def torn_dib_def mon0_def)
  then have a6: "check_clipboard 100 stamp0 100 (clip_image torn_dib) mon0 disk_empty
              = (mon0, disk_empty\<lparr>dirs := [temp_dir]\<rparr>)"
    by (simp add: makedirs_def disk_empty_def)
  from a1 a2 a3 a4 a5 a6 show ?thesis by blast
qed

text \<open>
  C6 as stated fails: a bitmap that cannot be decoded is a detected change (its hash
  differs from the last-seen value), yet after the poll the last-seen value is still
  \<^verbatim>\<open>None\<close> and not the hash; the next poll of the same clipboard is again a detected
  change, and once decoding succeeds the image is recorded although the clipboard
  content never changed.
\<close>

theorem poll_last_seen_counterexample:
  "cf_dib (clip_image bad_dib) = Some bad_dib
   \<and> LastStr (dib_hash bad_dib) \<noteq> last_content mon0
   \<and> last_content (fst (check_clipboard 100 stamp0 100 (clip_image bad_dib) mon0 disk_empty))
       = LastNone
   \<and> last_content (fst (check_clipboard 100 stamp0 100 (clip_image bad_dib) mon0 disk_empty))
       \<noteq> LastStr (dib_hash bad_dib)
   \<and> dib_hash good_dib = dib_hash bad_dib
   \<and> map content
        (records (store (fst (check_clipboard 101 stamp0 101 (clip_image good_dib)
           (fst (check_clipboard 100 stamp0 100 (clip_image bad_dib) mon0 disk_empty))
           (snd (check_clipboard 100 stamp0 100 (clip_image bad_dib) mon0 disk_empty))))))
       = [''temp_images/temp_image_0a1b2c3d.png'']"
  by (simp add: sample_defs disk_defs store_defs monitor_defs Let_def)

subsection \<open>Equal ids\<close>

text \<open>
  C7 (amended). \<^verbatim>\<open>add_record\<close> finds an existing entry by content and type only and
  never compares ids. For every record added to a store that holds a record with the
  same id, but no record with the new record's content and type: if the limits evict
  nothing (every record of the list extended by the new record is within the age limit,
  and the extended list does not exceed \<open>max_records\<close>), the resulting list is the new
  record followed by the old list; the old record is kept, the new record is a second,
  distinct entry, and the two share the id.
\<close>

theorem add_record_equal_ids:
  assumes "find_dup r (records s) = None"
    and "e \<in> set (records s)" and "rid e = rid r"
    and "within_age now (age_limit s) (r # records s)"
    and "count_ok (s\<lparr>records := r # records s\<rparr>)"
  shows "records (fst (add_record now r s fs)) = r # records s
     \<and> r \<in> set (records (fst (add_record now r s fs)))
     \<and> e \<in> set (records (fst (add_record now r s fs)))
     \<and> e \<noteq> r \<and> rid e = rid r"
proof -
  have ic: "is_count (max_records s)"
    using assms(5) by (auto simp: is_count_def count_ok_def split: option.splits)
  have kf: "keep_first (max_records s) (r # records s) = r # records s"
    using assms(5) by (auto simp: keep_first_def count_ok_def split: option.splits)
  have "records (fst (add_record now r s fs)) = r # records s"
    by (simp add: add_record_new_records[OF assms(1) ic] keep_fresh_within_age[OF assms(4)] kf)
  moreover have "e \<noteq> r"
    using assms(1,2) by (auto simp: find_dup_None_iff)
  ultimately show ?thesis
    using assms(2,3) by simp
qed

text \<open>The theorem on a store with a one-minute age limit and room for three records, at
  time 150: a new text stamped with the id of \<open>note_a\<close> becomes a third entry.\<close>

theorem add_record_equal_ids_witness:
  "find_dup twin (records store_tight) = None
   \<and> note_a \<in> set (records store_tight) \<and> rid note_a = rid twin
   \<and> within_age 150 (age_limit store_tight) (twin # records store_tight)
   \<and> count_ok (store_tight\<lparr>records := twin # records store_tight\<rparr>)
   \<and> records (fst (add_record 150 twin store_tight disk0)) = [twin, note_b, note_a]
   \<and> note_a \<noteq> twin"
proof -
  have h1: "find_dup twin (records store_tight) = None" by (simp add: sample_defs)
  have h2: "note_a \<in> set (records store_tight)" by (simp add: store_tight_def)
  have h3: "rid note_a = rid twin" by (simp add: note_a_def twin_def)
  have al: "age_limit store_tight = Some 1"
    by (simp add: age_limit_def store_tight_def one_minute_def config_defs)
  have h4: "within_age 150 (age_limit store_tight) (twin # records store_tight)"
    unfolding al
    by (simp add: within_age_def fresh_def store_tight_def twin_def note_a_def note_b_def)
  have h5: "count_ok (store_tight\<lparr>records := twin # records store_tight\<rparr>)"
    by (simp add: count_ok_def store_tight_def)
  have rs: "twin # records store_tight = [twin, note_b, note_a]"
    by (simp add: store_tight_def)
  from add_record_equal_ids[OF h1 h2 h3 h4 h5, where fs = disk0] rs
  have "records (fst (add_record 150 twin store_tight disk0)) = [twin, note_b, note_a]"
    and "note_a \<noteq> twin"
    by simp_all
  with h1 h2 h3 h4 h5 show ?thesis by blast
qed

text \<open>
  C7 as stated fails: two adds with the same id and different contents, on the empty
  store that \<^verbatim>\<open>Storage()\<close> builds, leave two distinct entries that share the id.
\<close>

theorem add_record_equal_ids_counterexample:
  "rid twin = rid note_a \<and> twin \<noteq> note_a
   \<and> records (fst (add_record 100 twin
                     (fst (add_record 100 note_a store_empty disk_empty))
                     (snd (add_record 100 note_a store_empty disk_empty))))
       = [twin, note_a]"
  by (simp add: sample_defs disk_defs store_defs Let_def)

subsection \<open>Descending order\<close>

text \<open>
  C8. After the constructor's load and any sequence of \<^verbatim>\<open>add_record\<close>,
  \<^verbatim>\<open>delete_record\<close>, \<^verbatim>\<open>delete_multiple\<close>, \<^verbatim>\<open>update_config\<close> and \<^verbatim>\<open>clear_all\<close> in which
  every added record's id is at least every id then in the list, each adjacent pair of
  records has the earlier id at least the later one.
\<close>

theorem records_descending:
  assumes "ids_increase ops (Storage_init cfg m now fs)"
  shows "\<forall>i. Suc i < length (records (fst (run ops (Storage_init cfg m now fs))))
           \<longrightarrow> rid (records (fst (run ops (Storage_init cfg m now fs))) ! Suc i)
                 \<le> rid (records (fst (run ops (Storage_init cfg m now fs))) ! i)"
  using descending_run[OF descending_Storage_init assms]
  by (simp add: descending_def)

text \<open>The theorem on the sample disk: load, re-copy \<open>alpha\<close>, delete \<open>note_b\<close>.\<close>

theorem records_descending_witness:
  "ids_increase sample_ops (Storage_init None (Some 50) 250 disk0)
   \<and> records (fst (run sample_ops (Storage_init None (Some 50) 250 disk0))) = [again, shot]
   \<and> rid (records (fst (run sample_ops (Storage_init None (Some 50) 250 disk0))) ! Suc 0)
       \<le> rid (records (fst (run sample_ops (Storage_init None (Some 50) 250 disk0))) ! 0)"
proof -
  have init: "Storage_init None (Some 50) 250 disk0 = (store0, disk0)"
    by (simp add: sample_defs disk_defs store_defs Let_def)
  have h: "ids_increase sample_ops (Storage_init None (Some 50) 250 disk0)"
    unfolding init by (simp add: sample_defs disk_defs store_defs Let_def)
  have ev: "records (fst (run sample_ops (Storage_init None (Some 50) 250 disk0))) = [again, shot]"
    unfolding init by (simp add: sample_defs disk_defs store_defs Let_def)
  have "Suc 0 < length (records (fst (run sample_ops (Storage_init None (Some 50) 250 disk0))))"
    by (simp add: ev)
  with records_descending[OF h]
  have "rid (records (fst (run sample_ops (Storage_init None (Some 50) 250 disk0))) ! Suc 0)
       \<le> rid (records (fst (run sample_ops (Storage_init None (Some 50) 250 disk0))) ! 0)"
    by blast
  with h ev show ?thesis by blast
qed

subsection \<open>Deleting a record that is not an image\<close>

text \<open>
  C9 (amended). For a record that is not an image and is the first record in the list
  with its id, in a store whose list does not exceed \<open>max_records\<close>,
  \<^verbatim>\<open>delete_record\<close> on its id removes every record with that id, and the only change to
  the disk is the rewrite of the data file: directories and all other files are as before.
\<close>

theorem delete_record_non_image:
  assumes "List.find (\<lambda>x. rid x = rid r) (records s) = Some r"
    and "rtype r \<noteq> ''image''"
    and "count_ok s"
    and "delete_record (rid r) s fs = (s', fs')"
  shows "records s' = filter (\<lambda>x. rid x \<noteq> rid r) (records s)
     \<and> r \<notin> set (records s')
     \<and> fs' = (case write_data_file (records s') fs of Some f \<Rightarrow> f | None \<Rightarrow> fs)
     \<and> dirs fs' = dirs fs
     \<and> set (files fs') - {data_file} = set (files fs) - {data_file}
     \<and> (data_file \<notin> set (dirs fs)
          \<longrightarrow> isfile fs' data_file \<and> data_json fs' = Some (records s'))"
proof -
  let ?s1 = "s\<lparr>records := filter (\<lambda>x. rid x \<noteq> rid r) (records s)\<rparr>"
  have "delete_image_file r fs = fs"
    using assms(2) by (simp add: delete_image_file_def)
  then have "delete_record (rid r) s fs = save_data ?s1 fs"
    using assms(1) by (simp add: delete_record_def Let_def)
  also have "\<dots> = (?s1, case write_data_file (records ?s1) fs of Some f \<Rightarrow> f | None \<Rightarrow> fs)"
    using assms(3) by (intro save_data_ok count_ok_filter)
  finally have s': "s' = ?s1"
    and fs': "fs' = (case write_data_file (records ?s1) fs of Some f \<Rightarrow> f | None \<Rightarrow> fs)"
    using assms(4) by simp_all
  show ?thesis
    unfolding s' fs'
    by (auto simp: write_data_file_def isfile_def)
qed

text \<open>The theorem on the sample store: deleting \<open>note_a\<close> leaves the image file and the
  image directory in place and rewrites the data file.\<close>

theorem delete_record_non_image_witness:
  "List.find (\<lambda>x. rid x = rid note_a) (records store0) = Some note_a
   \<and> rtype note_a \<noteq> ''image'' \<and> count_ok store0
   \<and> delete_record (rid note_a) store0 disk0
       = (store0\<lparr>records := [note_b, shot]\<rparr>, disk0\<lparr>data_json := Some [note_b, shot]\<rparr>)
   \<and> note_a \<notin> set (records (store0\<lparr>records := [note_b, shot]\<rparr>))
   \<and> dirs (disk0\<lparr>data_json := Some [note_b, shot]\<rparr>) = dirs disk0
   \<and> set (files (disk0\<lparr>data_json := Some [note_b, shot]\<rparr>)) - {data_file}
       = set (files disk0) - {data_file}"
proof -
  have h1: "List.find (\<lambda>x. rid x = rid note_a) (records store0) = Some note_a"
    by (simp add: sample_defs)
  have h2: "rtype note_a \<noteq> ''image''" by (simp add: note_a_def)
  have h3: "count_ok store0" by (simp add: count_ok_def store0_def)
  have h4: "delete_record (rid note_a) store0 disk0
       = (store0\<lparr>records := [note_b, shot]\<rparr>, disk0\<lparr>data_json := Some [note_b, shot]\<rparr>)"
    by (simp add: sample_defs disk_defs store_defs Let_def)
  from delete_record_non_image[OF h1 h2 h3 h4] h1 h2 h3 h4
  show ?thesis by blast
qed

text \<open>
  C9 as stated fails in two ways. When an image record with the same id comes first in
  the list (two adds with one id, from the empty store), deleting by the text record's id
  deletes the image file. And in the store built with \<^verbatim>\<open>max_records = -1\<close> the save
  after the deletion evicts the last record and deletes its image file.
\<close>

theorem delete_record_non_image_counterexample:
  "fst (add_record 100 shot_twin (fst (add_record 100 note_a store_empty disk_empty))
          (snd (add_record 100 note_a store_empty disk_empty))) = store_clash
   \<and> note_a \<in> set (records store_clash) \<and> rtype note_a \<noteq> ''image''
   \<and> isfile disk0 shot_path
   \<and> \<not> isfile (snd (delete_record (rid note_a) store_clash disk0)) shot_path
   \<and> note_b \<in> set (records (store_neg\<lparr>records := [note_b, shot]\<rparr>))
   \<and> rtype note_b \<noteq> ''image''
   \<and> \<not> isfile (snd (delete_record (rid note_b) (store_neg\<lparr>records := [note_b, shot]\<rparr>) disk0))
         shot_path"
  by (simp add: sample_defs disk_defs store_defs Let_def)

subsection \<open>Default configuration and leaving the application\<close>

text \<open>
  C10. With no configuration file on disk a freshly constructed \<^verbatim>\<open>Config\<close> reports
  \<^verbatim>\<open>max_records = None\<close>, \<^verbatim>\<open>max_age_minutes = None\<close> and \<^verbatim>\<open>clear_data_on_exit = True\<close>,
  and a window holding that configuration clears the history on exit. The code departs
  from the claim where the application is assembled: \<^verbatim>\<open>main()\<close> constructs no
  \<^verbatim>\<open>Config\<close>, the window's configuration is \<^verbatim>\<open>None\<close>, and on exit the store that
  \<^verbatim>\<open>main()\<close> loaded and the disk are left as they are.
\<close>

theorem exit_keeps_history_by_default:
  "get_max_records (Config_init NoConfigFile) = JNull
   \<and> get_max_age_minutes (Config_init NoConfigFile) = JNull
   \<and> get_clear_data_on_exit (Config_init NoConfigFile) = JBool True
   \<and> records (fst (quit_application (Some (Config_init NoConfigFile)) store0 disk0)) = []
   \<and> \<not> isfile (snd (quit_application (Some (Config_init NoConfigFile)) store0 disk0)) data_file
   \<and> main_storage 250 disk0 = (store0, disk0)
   \<and> quit_application main_window_config store0 disk0 = (store0, disk0)
   \<and> records store0 = [note_b, note_a, shot]
   \<and> isfile disk0 data_file"
  by (simp add: sample_defs config_defs disk_defs store_defs exit_defs Let_def)

end
